theory Spec2Isabelle
  imports Main "HOL-Library.Word"
begin

section \<open>The preflight bind (wireguard/preflightbind)\<close>

text \<open>
  A shallow embedding of the obfuscation engine: the CPS template parser
  (\<open>parseCPSPacket\<close>), the junk generator (\<open>generateJunkPacket\<close>), the rate limiter
  and the send sequences of \<open>maybePreflight\<close>, and the decorated \<open>Send\<close>.

  Go strings are byte strings: \<open>string\<close> (a \<open>char list\<close>, one \<open>char\<close> per byte).
  Byte slices are \<open>byte list\<close>. Go's \<open>int\<close> is modelled as \<open>int\<close>, with the 64-bit
  two's-complement wrap-around written out where an addition can overflow.
\<close>

type_synonym byte = "8 word"

subsection \<open>The environment: clock, random sources, network\<close>

text \<open>
  Everything the code reads from outside is an oracle in the \<open>world\<close>, indexed by the number
  of reads made so far, and everything it writes is a log:
  \<^item> \<open>clock\<close>: the successive readings of \<open>time.Now()\<close> that enter a result (those of
    the \<open><c>\<close> and \<open><t>\<close> tags and of the rate limiter; the readings that only set a write
    deadline are left out), in nanoseconds since the Unix epoch (wall-clock and monotonic
    reading are identified);
  \<^item> \<open>entropy\<close>: the successive calls of \<open>crypto/rand.Read\<close>; \<open>None\<close> is a returned
    error, \<open>Some f\<close> fills position \<open>i\<close> of the buffer with \<open>f i\<close>;
  \<^item> \<open>prng\<close>: the successive raw draws of the package-level \<open>math/rand\<close> generator \<open>rng\<close>;
  \<^item> \<open>reach\<close>: whether the n-th \<open>net.DialTimeout\<close>, \<open>net.ListenPacket\<close> or
    \<open>net.ResolveUDPAddr\<close> succeeds;
  \<^item> \<open>inner_err\<close>: the error returned by the n-th \<open>Send\<close> of the wrapped \<open>conn.Bind\<close>
    (\<open>None\<close> is Go's \<open>nil\<close>);
  \<^item> \<open>wire\<close>: every \<open>Write\<close>/\<open>WriteTo\<close> issued on a decoy socket, in order;
  \<^item> \<open>forwarded\<close>: every batch handed to the wrapped \<open>conn.Bind\<close>, in order;
  \<^item> \<open>spawned\<close>: the goroutines started by \<open>go b.executePostHandshakeSequence(host)\<close>.
  \<open>time.Sleep\<close> changes nothing here: time passing shows in the later clock readings.
\<close>

type_synonym addr = string

text \<open>
  A \<open>conn.Endpoint\<close>, of which the engine uses \<open>DstIP()\<close> only. An address stands for its
  own \<open>String()\<close> form, the \<open>host\<close> of the decoy sends.
\<close>

record Endpoint =
  DstIP :: addr

datatype site = WriteI1 | WriteSig | WriteSimple | WriteUDP | WriteZero1 | WriteZero2

record datagram =
  dg_site :: site
  dg_host :: addr
  dg_port :: int
  dg_data :: "byte list"

record world =
  clock :: "nat \<Rightarrow> int"
  ticks :: nat
  entropy :: "nat \<Rightarrow> (nat \<Rightarrow> byte) option"
  reads :: nat
  prng :: "nat \<Rightarrow> nat"
  draws :: nat
  reach :: "nat \<Rightarrow> bool"
  dials :: nat
  inner_err :: "nat \<Rightarrow> string option"
  wire :: "datagram list"
  forwarded :: "(byte list list \<times> Endpoint) list"
  spawned :: "addr list"

definition time_Now :: "world \<Rightarrow> int \<times> world" where
  "time_Now w = (clock w (ticks w), w\<lparr>ticks := Suc (ticks w)\<rparr>)"

text \<open>\<open>Time.Unix()\<close>: whole seconds since the epoch.\<close>

definition Unix :: "int \<Rightarrow> int" where
  "Unix t = t div 1000000000"

definition time_Sleep :: "int \<Rightarrow> world \<Rightarrow> world" where
  "time_Sleep d w = w"

text \<open>\<open>crypto/rand.Read(make([]byte, n))\<close>: the filled buffer, or \<open>None\<close> for an error.\<close>

definition rand_Read :: "nat \<Rightarrow> world \<Rightarrow> byte list option \<times> world" where
  "rand_Read n w =
     (case entropy w (reads w) of
        None \<Rightarrow> (None, w\<lparr>reads := Suc (reads w)\<rparr>)
      | Some f \<Rightarrow> (Some (map f [0..<n]), w\<lparr>reads := Suc (reads w)\<rparr>))"

text \<open>\<open>rng.Intn(n)\<close>: panics (\<open>None\<close>) when \<open>n \<le> 0\<close>, else a value in \<open>[0, n)\<close>.\<close>

definition Intn :: "int \<Rightarrow> world \<Rightarrow> (int \<times> world) option" where
  "Intn n w =
     (if n \<le> 0 then None
      else Some (int (prng w (draws w)) mod n, w\<lparr>draws := Suc (draws w)\<rparr>))"

text \<open>One \<open>net.DialTimeout\<close>/\<open>ListenPacket\<close>/\<open>ResolveUDPAddr\<close>: did it succeed?\<close>

definition net_op :: "world \<Rightarrow> bool \<times> world" where
  "net_op w = (reach w (dials w), w\<lparr>dials := Suc (dials w)\<rparr>)"

definition conn_Write :: "site \<Rightarrow> addr \<Rightarrow> int \<Rightarrow> byte list \<Rightarrow> world \<Rightarrow> world" where
  "conn_Write s host port data w =
     w\<lparr>wire := wire w @ [\<lparr>dg_site = s, dg_host = host, dg_port = port, dg_data = data\<rparr>]\<rparr>"

subsection \<open>Library functions used by the parser\<close>

definition HasPrefix :: "string \<Rightarrow> string \<Rightarrow> bool" where
  "HasPrefix s p = (take (length p) s = p)"

definition HasSuffix :: "string \<Rightarrow> string \<Rightarrow> bool" where
  "HasSuffix s p = (length p \<le> length s \<and> drop (length s - length p) s = p)"

text \<open>
  \<open>strings.TrimSpace\<close> removes leading and trailing white space as Unicode defines it
  (\<open>unicode.IsSpace\<close>), decoded from UTF-8. \<open>space_runes\<close> lists the UTF-8 encodings of
  these code points: the six ASCII ones, U+0085, U+00A0, U+1680, U+2000 to U+200A, U+2028,
  U+2029, U+202F, U+205F and U+3000.
\<close>

definition space_runes :: "string list" where
  "space_runes =
     [[CHR 0x09], [CHR 0x0A], [CHR 0x0B], [CHR 0x0C], [CHR 0x0D], [CHR 0x20],
      [CHR 0xC2, CHR 0x85], [CHR 0xC2, CHR 0xA0],
      [CHR 0xE1, CHR 0x9A, CHR 0x80],
      [CHR 0xE2, CHR 0x80, CHR 0x80], [CHR 0xE2, CHR 0x80, CHR 0x81],
      [CHR 0xE2, CHR 0x80, CHR 0x82], [CHR 0xE2, CHR 0x80, CHR 0x83],
      [CHR 0xE2, CHR 0x80, CHR 0x84], [CHR 0xE2, CHR 0x80, CHR 0x85],
      [CHR 0xE2, CHR 0x80, CHR 0x86], [CHR 0xE2, CHR 0x80, CHR 0x87],
      [CHR 0xE2, CHR 0x80, CHR 0x88], [CHR 0xE2, CHR 0x80, CHR 0x89],
      [CHR 0xE2, CHR 0x80, CHR 0x8A],
      [CHR 0xE2, CHR 0x80, CHR 0xA8], [CHR 0xE2, CHR 0x80, CHR 0xA9],
      [CHR 0xE2, CHR 0x80, CHR 0xAF], [CHR 0xE2, CHR 0x81, CHR 0x9F],
      [CHR 0xE3, CHR 0x80, CHR 0x80]]"

text \<open>The number of bytes of the white-space rune that starts (ends) the string, 0 if none.\<close>

definition space_at_head :: "string \<Rightarrow> nat" where
  "space_at_head s = (case find (HasPrefix s) space_runes of None \<Rightarrow> 0 | Some p \<Rightarrow> length p)"

definition space_at_end :: "string \<Rightarrow> nat" where
  "space_at_end s = (case find (HasSuffix s) space_runes of None \<Rightarrow> 0 | Some p \<Rightarrow> length p)"

function TrimLeft :: "string \<Rightarrow> string" where
  "TrimLeft s = (if s = [] \<or> space_at_head s = 0 then s else TrimLeft (drop (space_at_head s) s))"
  by pat_completeness auto
termination
  by (relation "measure length") auto

declare TrimLeft.simps [simp del]

function TrimRight :: "string \<Rightarrow> string" where
  "TrimRight s =
     (if s = [] \<or> space_at_end s = 0 then s else TrimRight (take (length s - space_at_end s) s))"
  by pat_completeness auto
termination
  by (relation "measure length") auto

declare TrimRight.simps [simp del]

definition TrimSpace :: "string \<Rightarrow> string" where
  "TrimSpace s = TrimRight (TrimLeft s)"

text \<open>\<open>strings.ReplaceAll(tagData, " ", "")\<close>: every byte 0x20 is removed, nothing else.\<close>

definition ReplaceAll_space :: "string \<Rightarrow> string" where
  "ReplaceAll_space s = filter (\<lambda>c. c \<noteq> CHR '' '') s"

text \<open>
  \<open>encoding/hex.DecodeString\<close>: two hex digits (either case) per byte; \<open>None\<close> stands for
  both of its errors, an odd length and a byte that is no hex digit.
\<close>

definition hex_digit :: "char \<Rightarrow> nat option" where
  "hex_digit c =
     (let n = (of_char c :: nat) in
      if 48 \<le> n \<and> n \<le> 57 then Some (n - 48)
      else if 97 \<le> n \<and> n \<le> 102 then Some (n - 87)
      else if 65 \<le> n \<and> n \<le> 70 then Some (n - 55)
      else None)"

fun hex_DecodeString :: "string \<Rightarrow> byte list option" where
  "hex_DecodeString [] = Some []"
| "hex_DecodeString [p] = None"
| "hex_DecodeString (p # q # rest) =
     (case (hex_digit p, hex_digit q) of
        (Some a, Some b) \<Rightarrow>
          (case hex_DecodeString rest of
             None \<Rightarrow> None
           | Some bs \<Rightarrow> Some (of_nat (a * 16 + b) # bs))
      | _ \<Rightarrow> None)"

text \<open>
  \<open>strconv.Atoi\<close> on a 64-bit platform: an optional sign, then at least one decimal digit
  and nothing else; a value outside the range of \<open>int\<close> is an error too.
\<close>

definition is_digit :: "char \<Rightarrow> bool" where
  "is_digit c = (48 \<le> (of_char c :: nat) \<and> (of_char c :: nat) \<le> 57)"

definition digits_value :: "string \<Rightarrow> int" where
  "digits_value ds = foldl (\<lambda>n ch. n * 10 + ((of_char ch :: int) - 48)) 0 ds"

definition max_int :: int where
  "max_int = 9223372036854775807"

definition min_int :: int where
  "min_int = - 9223372036854775808"

definition Atoi :: "string \<Rightarrow> int option" where
  "Atoi s =
     (let ds = (if s \<noteq> [] \<and> (hd s = CHR ''-'' \<or> hd s = CHR ''+'') then tl s else s);
          v = (if s \<noteq> [] \<and> hd s = CHR ''-'' then - digits_value ds
               else digits_value ds)
      in if ds = [] \<or> \<not> list_all is_digit ds then None
         else if v < min_int \<or> max_int < v then None
         else Some v)"

subsection \<open>The tag regular expression\<close>

text \<open>
  \<open>tagRegex.FindAllStringSubmatch(cps, -1)\<close> for the expression
  \<open><([btcr])\s*([^>]*)>\<close>: the successive leftmost matches, without overlap. A match
  starts at a \<open><\<close> followed by one of the four tag letters and ends at the next \<open>>\<close>;
  the first group is the letter, the second what is left of the text in between after the
  greedy \<open>\s*\<close> has taken the leading \<open>[\t\n\f\r ]\<close>.
\<close>

definition regex_space :: "char \<Rightarrow> bool" where
  "regex_space c =
     (c = CHR 0x09 \<or> c = CHR 0x0A \<or> c = CHR 0x0C \<or> c = CHR 0x0D \<or> c = CHR 0x20)"

definition tag_letter :: "char \<Rightarrow> bool" where
  "tag_letter c = (c = CHR ''b'' \<or> c = CHR ''t'' \<or> c = CHR ''c'' \<or> c = CHR ''r'')"

definition not_gt :: "char \<Rightarrow> bool" where
  "not_gt c = (c \<noteq> CHR ''>'')"

function FindAllStringSubmatch :: "string \<Rightarrow> (char \<times> string) list" where
  "FindAllStringSubmatch [] = []"
| "FindAllStringSubmatch [c] = []"
| "FindAllStringSubmatch (c # l # rest) =
     (if c = CHR ''<'' \<and> tag_letter l \<and> dropWhile not_gt rest \<noteq> []
      then (l, dropWhile regex_space (takeWhile not_gt rest))
             # FindAllStringSubmatch (tl (dropWhile not_gt rest))
      else FindAllStringSubmatch (l # rest))"
  by pat_completeness auto
termination
proof (relation "measure length")
  fix c l :: char and rest :: string
  have "length (tl (dropWhile not_gt rest)) \<le> length rest"
    using length_dropWhile_le [of not_gt rest] by simp
  then show "(tl (dropWhile not_gt rest), c # l # rest) \<in> measure length"
    by simp
qed auto

subsection \<open>parseCPSPacket\<close>

datatype cps_error = InvalidHex | InvalidLength | RandomFailure

text \<open>Go's \<open>%\<close> truncates towards zero: the sign of the result is the dividend's.\<close>

definition go_rem :: "int \<Rightarrow> int \<Rightarrow> int" where
  "go_rem a b = sgn a * (\<bar>a\<bar> mod \<bar>b\<bar>)"

text \<open>The four bytes \<open>byte(x >> 24), byte(x >> 16), byte(x >> 8), byte(x)\<close> of a \<open>uint32\<close>.\<close>

definition be32 :: "32 word \<Rightarrow> byte list" where
  "be32 x = [ucast (drop_bit 24 x), ucast (drop_bit 16 x), ucast (drop_bit 8 x), ucast x]"

text \<open>
  The body of the loop over the matches, the \<open>switch tagType\<close>: the bytes it appends to
  \<open>result\<close>, or the error it returns. (Every match has three elements, so the
  \<open>len(match) < 3\<close> test never fires.)
\<close>

definition resolve_tag :: "char \<times> string \<Rightarrow> world \<Rightarrow> (cps_error + byte list) \<times> world" where
  "resolve_tag m w =
     (let tagType = fst m; tagData = TrimSpace (snd m) in
      if tagType = CHR ''b'' then
        (if tagData \<noteq> [] then
           (let tagData1 = (if HasPrefix tagData ''0x'' \<or> HasPrefix tagData ''0X''
                            then drop 2 tagData else tagData);
                tagData2 = ReplaceAll_space tagData1
            in case hex_DecodeString tagData2 of
                 None \<Rightarrow> (Inl InvalidHex, w)
               | Some bytes \<Rightarrow> (Inr bytes, w))
         else (Inr [], w))
      else if tagType = CHR ''c'' then
        (let (now, w1) = time_Now w;
             counter = (word_of_int (go_rem (Unix now) 0xFFFFFFFF) :: 32 word)
         in (Inr (be32 counter), w1))
      else if tagType = CHR ''t'' then
        (let (now, w1) = time_Now w;
             timestamp = (word_of_int (Unix now) :: 32 word)
         in (Inr (be32 timestamp), w1))
      else if tagType = CHR ''r'' then
        (case (if tagData \<noteq> [] then
                 (case Atoi tagData of
                    None \<Rightarrow> None
                  | Some n \<Rightarrow> Some (if n > 1000 then 1000 else n))
               else Some 0) of
           None \<Rightarrow> (Inl InvalidLength, w)
         | Some len \<Rightarrow>
             if len > 0 then
               (case rand_Read (nat len) w of
                  (None, w1) \<Rightarrow> (Inl RandomFailure, w1)
                | (Some randomBytes, w1) \<Rightarrow> (Inr randomBytes, w1))
             else (Inr [], w))
      else (Inr [], w))"

text \<open>
  The loop \<open>for _, match := range matches\<close>, \<open>result\<close> being the bytes appended so far; a
  \<open>return nil, err\<close> ends it with \<open>Inl\<close>.
\<close>

fun parse_matches ::
  "(char \<times> string) list \<Rightarrow> byte list \<Rightarrow> world \<Rightarrow> (cps_error + byte list) \<times> world" where
  "parse_matches [] result w = (Inr result, w)"
| "parse_matches (m # ms) result w =
     (case resolve_tag m w of
        (Inl err, w1) \<Rightarrow> (Inl err, w1)
      | (Inr bytes, w1) \<Rightarrow> parse_matches ms (result @ bytes) w1)"

definition parseCPSPacket :: "string \<Rightarrow> world \<Rightarrow> (cps_error + byte list) \<times> world" where
  "parseCPSPacket cps w =
     (if cps = [] then (Inr [], w)
      else parse_matches (FindAllStringSubmatch cps) [] w)"

subsection \<open>Configuration and engine state\<close>

record AmneziaConfig =
  I1 :: string
  I2 :: string
  I3 :: string
  I4 :: string
  I5 :: string
  S1 :: int
  S2 :: int
  Jc :: int
  Jmin :: int
  Jmax :: int
  JcAfterI1 :: int
  JcBeforeHS :: int
  JcAfterHS :: int
  JunkInterval :: int
  AllowZeroSize :: bool
  HandshakeDelay :: int

text \<open>
  The \<open>Bind\<close>. The wrapped \<open>inner\<close> bind is the \<open>inner_err\<close>/\<open>forwarded\<close> part of the
  world. \<open>payload\<close> is a slice that is \<open>nil\<close> exactly when it is empty: \<open>parseCPSPacket\<close>
  starts from a \<open>nil\<close> result and \<open>append\<close> leaves \<open>nil\<close> unchanged when nothing is added,
  so \<open>b.payload != nil\<close> is \<open>payload b \<noteq> []\<close>. \<open>lastSent\<close> holds time readings
  (nanoseconds); \<open>interval\<close> is a \<open>time.Duration\<close> (nanoseconds).
\<close>

record Bind =
  port443 :: int
  payload :: "byte list"
  amneziaConfig :: "AmneziaConfig option"
  lastSent :: "addr \<Rightarrow> int option"
  interval :: int

datatype new_error = HexError | InvalidI1 cps_error

definition New :: "string \<Rightarrow> int \<Rightarrow> int \<Rightarrow> new_error + Bind" where
  "New hexPayload port minInterval =
     (let h = (if length hexPayload \<ge> 2 \<and> (take 2 hexPayload = ''0x'' \<or> take 2 hexPayload = ''0X'')
               then drop 2 hexPayload else hexPayload)
      in case hex_DecodeString h of
           None \<Rightarrow> Inl HexError
         | Some p \<Rightarrow> Inr \<lparr>port443 = port, payload = p, amneziaConfig = None,
                           lastSent = Map.empty, interval = minInterval\<rparr>)"

definition NewWithAmnezia ::
  "AmneziaConfig option \<Rightarrow> int \<Rightarrow> int \<Rightarrow> world \<Rightarrow> (new_error + Bind) \<times> world" where
  "NewWithAmnezia cfg port minInterval w =
     (case (if cfg \<noteq> None \<and> I1 (the cfg) \<noteq> [] then parseCPSPacket (I1 (the cfg)) w
            else (Inr [], w)) of
        (Inl err, w1) \<Rightarrow> (Inl (InvalidI1 err), w1)
      | (Inr p, w1) \<Rightarrow>
          (Inr \<lparr>port443 = port, payload = p, amneziaConfig = cfg,
                lastSent = Map.empty, interval = minInterval\<rparr>, w1))"

subsection \<open>Detection of a handshake initiation\<close>

text \<open>
  Modelled from the spec: the constants \<open>device.MessageInitiationSize\<close> and
  \<open>device.MessageInitiationType\<close> are declared in the wireguard \<open>device\<close> package, which is
  not among the sources. The spec (4.3) calls them the protocol's minimum initiation size
  and the handshake-initiation type code; the comment above \<open>handshakeInitiation\<close> gives
  their values: first byte 1, size 148.
\<close>

definition MessageInitiationSize :: nat where
  "MessageInitiationSize = 148"

definition MessageInitiationType :: byte where
  "MessageInitiationType = 1"

definition handshakeInitiation :: "byte list \<Rightarrow> bool" where
  "handshakeInitiation buf =
     (if length buf < MessageInitiationSize then False
      else buf ! 0 = MessageInitiationType \<and> length buf \<ge> MessageInitiationSize)"

subsection \<open>generateJunkPacket\<close>

text \<open>Go's \<open>int\<close> arithmetic wraps around in 64-bit two's complement.\<close>

definition wrap64 :: "int \<Rightarrow> int" where
  "wrap64 x = (x + 9223372036854775808) mod 18446744073709551616 - 9223372036854775808"

text \<open>The fallback loop \<open>for i := range junk { junk[i] = byte(rng.Intn(256)) }\<close>.\<close>

fun fallback_fill :: "nat \<Rightarrow> world \<Rightarrow> (byte list \<times> world) option" where
  "fallback_fill 0 w = Some ([], w)"
| "fallback_fill (Suc n) w =
     (case Intn 256 w of
        None \<Rightarrow> None
      | Some (v, w1) \<Rightarrow>
          (case fallback_fill n w1 of
             None \<Rightarrow> None
           | Some (bs, w2) \<Rightarrow> Some (word_of_int v # bs, w2)))"

text \<open>
  \<open>junk := make([]byte, size)\<close>, \<open>rand.Read(junk)\<close> and the fallback, which both branches of
  \<open>generateJunkPacket\<close> end with. \<open>make\<close> panics on a negative length; memory is not
  modelled, so any other length is allocated.
\<close>

definition fill_junk :: "int \<Rightarrow> world \<Rightarrow> (byte list \<times> world) option" where
  "fill_junk sz w =
     (if sz < 0 then None
      else case rand_Read (nat sz) w of
             (Some junk, w1) \<Rightarrow> Some (junk, w1)
           | (None, w1) \<Rightarrow> fallback_fill (nat sz) w1)"

text \<open>\<open>None\<close> is a panic; the result \<open>nil\<close> is the empty list.\<close>

definition generateJunkPacket :: "Bind \<Rightarrow> world \<Rightarrow> (byte list \<times> world) option" where
  "generateJunkPacket b w =
     (case amneziaConfig b of
        None \<Rightarrow> Some ([], w)
      | Some cfg \<Rightarrow>
          (let minSize = Jmin cfg; maxSize = Jmax cfg in
           if minSize = 0 \<and> maxSize = 0 then Some ([], w)
           else if minSize = 0 then
             (if maxSize = 0 then Some ([], w)
              else case Intn (wrap64 (maxSize + 1)) w of
                     None \<Rightarrow> None
                   | Some (sz, w1) \<Rightarrow> if sz = 0 then Some ([], w1) else fill_junk sz w1)
           else
             (case (if AllowZeroSize cfg \<and> minSize > 0
                    then (case Intn 2 w of None \<Rightarrow> None | Some (v, w1) \<Rightarrow> Some (v = 0, w1))
                    else Some (False, w)) of
                None \<Rightarrow> None
              | Some (zero, w1) \<Rightarrow>
                  if zero then Some ([], w1)
                  else
                    (let minSize1 = (if minSize < 0 then 0 else minSize);
                         maxSize1 = (if maxSize < minSize1 then minSize1 else maxSize)
                     in case (if maxSize1 = minSize1 then Some (minSize1, w1)
                              else case Intn (wrap64 (wrap64 (maxSize1 - minSize1) + 1)) w1 of
                                     None \<Rightarrow> None
                                   | Some (v, w2) \<Rightarrow> Some (wrap64 (minSize1 + v), w2)) of
                          None \<Rightarrow> None
                        | Some (sz, w2) \<Rightarrow>
                            if sz = 0 then Some ([], w2) else fill_junk sz w2))))"

subsection \<open>Decoy sends\<close>

text \<open>
  The \<open>wire\<close> log records each \<open>Write\<close>/\<open>WriteTo\<close> call with the statement that issued it;
  the code ignores the results of these calls. \<open>sendStandardZeroByte\<close> runs both of its
  methods, one after the other.
\<close>

definition sendStandardZeroByte :: "Bind \<Rightarrow> addr \<Rightarrow> world \<Rightarrow> world" where
  "sendStandardZeroByte b host w =
     (let (ok1, w1) = net_op w;
          w2 = (if ok1 then conn_Write WriteZero1 host (port443 b) [] w1 else w1);
          (ok2, w3) = net_op w2
      in if ok2 then
           (let (ok3, w4) = net_op w3
            in if ok3 then conn_Write WriteZero2 host (port443 b) [] w4 else w4)
         else w3)"

definition sendTrueZeroByteUDP :: "Bind \<Rightarrow> addr \<Rightarrow> world \<Rightarrow> world" where
  "sendTrueZeroByteUDP b host w = sendStandardZeroByte b host w"

definition sendUDPPacket :: "Bind \<Rightarrow> addr \<Rightarrow> byte list \<Rightarrow> world \<Rightarrow> world" where
  "sendUDPPacket b host data w =
     (if length data = 0 then sendTrueZeroByteUDP b host w
      else (let (ok, w1) = net_op w
            in if \<not> ok then w1 else conn_Write WriteUDP host (port443 b) data w1))"

text \<open>The loop \<open>for i := 0; i < count; i++\<close> of \<open>sendJunkPackets\<close>.\<close>

function junk_loop :: "Bind \<Rightarrow> addr \<Rightarrow> int \<Rightarrow> int \<Rightarrow> int \<Rightarrow> world \<Rightarrow> world option" where
  "junk_loop b host i count ival w =
     (if i < count then
        (case generateJunkPacket b w of
           None \<Rightarrow> None
         | Some (junk, w1) \<Rightarrow>
             (let w2 = sendUDPPacket b host junk w1;
                  w3 = (if i < count - 1 \<and> ival > 0 then time_Sleep ival w2 else w2)
              in junk_loop b host (i + 1) count ival w3))
      else Some w)"
  by pat_completeness auto
termination
  by (relation "measure (\<lambda>(b, host, i, count, ival, w). nat (count - i))") auto

declare junk_loop.simps [simp del]

definition sendJunkPackets :: "Bind \<Rightarrow> addr \<Rightarrow> int \<Rightarrow> int \<Rightarrow> world \<Rightarrow> world option" where
  "sendJunkPackets b host count ival w =
     (if count \<le> 0 then Some w else junk_loop b host 0 count ival w)"

definition Millisecond :: int where
  "Millisecond = 1000000"

definition executeSimplePreflight :: "Bind \<Rightarrow> addr \<Rightarrow> world \<Rightarrow> world" where
  "executeSimplePreflight b host w =
     (let (ok, w1) = net_op w
      in if \<not> ok then w1 else conn_Write WriteSimple host (port443 b) (payload b) w1)"

text \<open>The loop over \<open>signatures\<close> of \<open>executeFastPreHandshakeSequence\<close>, with its index.\<close>

fun send_signatures :: "Bind \<Rightarrow> addr \<Rightarrow> (nat \<times> string) list \<Rightarrow> world \<Rightarrow> world" where
  "send_signatures b host [] w = w"
| "send_signatures b host ((i, sig) # sigs) w =
     (if i = 0 \<or> sig = [] then send_signatures b host sigs w
      else case parseCPSPacket sig w of
             (Inl err, w1) \<Rightarrow> send_signatures b host sigs w1
           | (Inr packet, w1) \<Rightarrow>
               if length packet = 0 then send_signatures b host sigs w1
               else (let (ok, w2) = net_op w1;
                         w3 = (if ok then conn_Write WriteSig host (port443 b) packet w2 else w2);
                         w4 = time_Sleep (3 * Millisecond) w3
                     in send_signatures b host sigs w4))"

definition executeFastPreHandshakeSequence :: "Bind \<Rightarrow> addr \<Rightarrow> world \<Rightarrow> world option" where
  "executeFastPreHandshakeSequence b host w =
     (case amneziaConfig b of
        None \<Rightarrow> Some w
      | Some config \<Rightarrow>
          (let fastDelay = 3 * Millisecond;
               signatures = [[], I2 config, I3 config, I4 config, I5 config];
               w1 = send_signatures b host (enumerate 0 signatures) w
           in case (if JcBeforeHS config > 0 then
                      (let w2 = time_Sleep fastDelay w1;
                           criticalCount = (if JcBeforeHS config > 3 then 3 else JcBeforeHS config)
                       in sendJunkPackets b host criticalCount fastDelay w2)
                    else Some w1) of
                None \<Rightarrow> None
              | Some w3 \<Rightarrow> Some (time_Sleep (2 * Millisecond) w3)))"

definition executePostHandshakeSequence :: "Bind \<Rightarrow> addr \<Rightarrow> world \<Rightarrow> world option" where
  "executePostHandshakeSequence b host w =
     (case amneziaConfig b of
        None \<Rightarrow> Some w
      | Some config \<Rightarrow>
          (let junkInterval = (if JunkInterval config = 0 then 10 * Millisecond
                               else JunkInterval config)
           in case (if JcBeforeHS config > 3
                    then sendJunkPackets b host (JcBeforeHS config - 3) junkInterval w
                    else Some w) of
                None \<Rightarrow> None
              | Some w1 \<Rightarrow>
                  (case (if Jc config > 0
                         then sendJunkPackets b host (Jc config) junkInterval
                                (time_Sleep (50 * Millisecond) w1)
                         else Some w1) of
                     None \<Rightarrow> None
                   | Some w2 \<Rightarrow>
                       (case (if JcAfterI1 config > 0
                              then sendJunkPackets b host (JcAfterI1 config) junkInterval
                                     (time_Sleep (30 * Millisecond) w2)
                              else Some w2) of
                          None \<Rightarrow> None
                        | Some w3 \<Rightarrow>
                            (if JcAfterHS config > 0
                             then sendJunkPackets b host (JcAfterHS config) junkInterval
                                    (time_Sleep (50 * Millisecond) w3)
                             else Some w3)))))"

text \<open>
  \<open>go b.executePostHandshakeSequence(host)\<close> only records the new goroutine; what it does
  when it runs is \<open>executePostHandshakeSequence\<close>, from whatever world it then finds.
\<close>

definition go_executePostHandshakeSequence :: "addr \<Rightarrow> world \<Rightarrow> world" where
  "go_executePostHandshakeSequence host w = w\<lparr>spawned := spawned w @ [host]\<rparr>"

definition executeMinimalPreHandshakeSequence :: "Bind \<Rightarrow> addr \<Rightarrow> world \<Rightarrow> world option" where
  "executeMinimalPreHandshakeSequence b host w =
     (case amneziaConfig b of
        None \<Rightarrow> Some w
      | Some config \<Rightarrow>
          (let w3 = (if I1 config \<noteq> [] \<and> payload b \<noteq> [] then
                       (let (ok, w1) = net_op w;
                            w2 = (if ok then conn_Write WriteI1 host (port443 b) (payload b) w1
                                  else w1)
                        in time_Sleep (5 * Millisecond) w2)
                     else w)
           in case executeFastPreHandshakeSequence b host w3 of
                None \<Rightarrow> None
              | Some w4 \<Rightarrow> Some (go_executePostHandshakeSequence host w4)))"

subsection \<open>The rate limiter and maybePreflight\<close>

text \<open>
  \<open>now.Sub(last)\<close> saturates at the ends of \<open>time.Duration\<close>. A destination that has no
  entry in \<open>lastSent\<close> reads as the zero \<open>time.Time\<close>, 1 January of year 1.
\<close>

definition time_Sub :: "int \<Rightarrow> int \<Rightarrow> int" where
  "time_Sub t u = (if t - u > max_int then max_int else if t - u < min_int then min_int else t - u)"

definition zero_Time :: int where
  "zero_Time = - 62135596800000000000"

text \<open>
  The rate limiter is the locked section of \<open>maybePreflight\<close> (between \<open>b.mu.Lock()\<close> and
  the last \<open>b.mu.Unlock()\<close>): whether the trigger at \<open>now\<close> is admitted, and the engine after.
\<close>

definition admit :: "Bind \<Rightarrow> addr \<Rightarrow> int \<Rightarrow> bool \<times> Bind" where
  "admit b dst now =
     (let last = (case lastSent b dst of None \<Rightarrow> zero_Time | Some t \<Rightarrow> t)
      in if time_Sub now last < interval b then (False, b)
         else (True, b\<lparr>lastSent := (lastSent b)(dst \<mapsto> now)\<rparr>))"

definition maybePreflight ::
  "Bind \<Rightarrow> Endpoint \<Rightarrow> byte list list \<Rightarrow> world \<Rightarrow> (Bind \<times> world) option" where
  "maybePreflight b ep bufs w =
     (let dst = DstIP ep;
          seenInit = list_ex handshakeInitiation bufs
      in if \<not> seenInit then Some (b, w)
         else
           (let (now, w1) = time_Now w;
                (ok, b1) = admit b dst now
            in if \<not> ok then Some (b1, w1)
               else
                 (let host = dst
                  in if amneziaConfig b1 \<noteq> None
                     then (case executeMinimalPreHandshakeSequence b1 host w1 of
                             None \<Rightarrow> None
                           | Some w2 \<Rightarrow> Some (b1, w2))
                     else Some (b1, executeSimplePreflight b1 host w1))))"

subsection \<open>Send\<close>

definition inner_Send :: "byte list list \<Rightarrow> Endpoint \<Rightarrow> world \<Rightarrow> string option \<times> world" where
  "inner_Send bufs ep w =
     (inner_err w (length (forwarded w)), w\<lparr>forwarded := forwarded w @ [(bufs, ep)]\<rparr>)"

text \<open>\<open>None\<close>: a panic inside \<open>maybePreflight\<close>, before the wrapped bind is reached.\<close>

definition Send ::
  "Bind \<Rightarrow> byte list list \<Rightarrow> Endpoint \<Rightarrow> world \<Rightarrow> (string option \<times> Bind \<times> world) option" where
  "Send b bufs ep w =
     (case maybePreflight b ep bufs w of
        None \<Rightarrow> None
      | Some (b1, w1) \<Rightarrow>
          (let (err, w2) = inner_Send bufs ep w1 in Some (err, b1, w2)))"

subsection \<open>Notions used in the statements\<close>

text \<open>
  What a \<open><b ...>\<close> tag with second group \<open>d\<close> resolves to (\<open>None\<close>: the hex error), and
  the length a \<open><r ...>\<close> tag asks for after the cap at 1000 (\<open>None\<close>: the \<open>Atoi\<close> error).
\<close>

definition strip_0x :: "string \<Rightarrow> string" where
  "strip_0x d = (if HasPrefix d ''0x'' \<or> HasPrefix d ''0X'' then drop 2 d else d)"

definition b_tag_bytes :: "string \<Rightarrow> byte list option" where
  "b_tag_bytes d =
     (if TrimSpace d = [] then Some []
      else hex_DecodeString (ReplaceAll_space (strip_0x (TrimSpace d))))"

definition r_tag_length :: "string \<Rightarrow> int option" where
  "r_tag_length d =
     (if TrimSpace d = [] then Some 0
      else case Atoi (TrimSpace d) of
             None \<Rightarrow> None
           | Some n \<Rightarrow> Some (if n > 1000 then 1000 else n))"

text \<open>
  The number a \<open><r ...>\<close> tag asks for before the cap, 0 when it names none (\<open>None\<close>: the
  \<open>Atoi\<close> error). A tag is bad when its hex does not decode or its length does not parse, and
  a template is malformed when the regular expression finds a bad tag in it.
\<close>

definition r_tag_request :: "string \<Rightarrow> int option" where
  "r_tag_request d = (if TrimSpace d = [] then Some 0 else Atoi (TrimSpace d))"

definition bad_tag :: "char \<times> string \<Rightarrow> bool" where
  "bad_tag m = (fst m = CHR ''b'' \<and> b_tag_bytes (snd m) = None
                \<or> fst m = CHR ''r'' \<and> r_tag_request (snd m) = None)"

definition malformed :: "string \<Rightarrow> bool" where
  "malformed tpl = list_ex bad_tag (FindAllStringSubmatch tpl)"

text \<open>What was written to the decoy sockets: the writing statement and the bytes.\<close>

definition sent :: "world \<Rightarrow> (site \<times> byte list) list" where
  "sent w = map (\<lambda>d. (dg_site d, dg_data d)) (wire w)"

definition sent_after :: "(string option \<times> Bind \<times> world) option \<Rightarrow> (site \<times> byte list) list option" where
  "sent_after r = map_option (\<lambda>x. sent (snd (snd x))) r"

text \<open>
  \<open>same_net w w'\<close>: from \<open>w\<close> to \<open>w'\<close> only the read counters of the clock and of the random
  sources have moved: nothing was sent and no oracle has changed.
\<close>

definition same_net :: "world \<Rightarrow> world \<Rightarrow> bool" where
  "same_net w w' =
     (clock w' = clock w \<and> entropy w' = entropy w \<and> prng w' = prng w \<and> reach w' = reach w
      \<and> inner_err w' = inner_err w \<and> forwarded w' = forwarded w
      \<and> wire w' = wire w \<and> spawned w' = spawned w \<and> dials w' = dials w)"

text \<open>
  \<open>decoy_only w w'\<close>: from \<open>w\<close> to \<open>w'\<close> no oracle has changed, nothing was handed to the
  wrapped bind and no goroutine was started: only decoys were written and counters moved.
\<close>

definition decoy_only :: "world \<Rightarrow> world \<Rightarrow> bool" where
  "decoy_only w w' =
     (clock w' = clock w \<and> entropy w' = entropy w \<and> prng w' = prng w \<and> reach w' = reach w
      \<and> inner_err w' = inner_err w \<and> forwarded w' = forwarded w
      \<and> spawned w' = spawned w)"

text \<open>
  The junk packets sent are counted on the wire by the first write of each:
  \<open>sendUDPPacket\<close> writes a non-empty packet once (\<open>WriteUDP\<close>), and an empty one by method 1
  (\<open>WriteZero1\<close>) and then again by method 2 (\<open>WriteZero2\<close>) of \<open>sendStandardZeroByte\<close>.
\<close>

definition is_junk_send :: "datagram \<Rightarrow> bool" where
  "is_junk_send d = (dg_site d = WriteUDP \<or> dg_site d = WriteZero1)"

definition junk_sends :: "world \<Rightarrow> nat" where
  "junk_sends w = length (filter is_junk_send (wire w))"

text \<open>Every dial, listen and address resolution succeeds.\<close>

definition all_reachable :: "world \<Rightarrow> bool" where
  "all_reachable w = (\<forall>n. reach w n)"

text \<open>
  \<open>junk_step k w w'\<close>: from \<open>w\<close> to \<open>w'\<close> only decoys were written and, if every dial
  succeeds, \<open>k\<close> junk packets were sent.
\<close>

definition junk_step :: "nat \<Rightarrow> world \<Rightarrow> world \<Rightarrow> bool" where
  "junk_step k w w' =
     (decoy_only w w' \<and> (all_reachable w \<longrightarrow> junk_sends w' = junk_sends w + k))"

text \<open>The junk size bounds for which \<open>generateJunkPacket\<close> cannot panic.\<close>

definition junk_safe :: "Bind \<Rightarrow> bool" where
  "junk_safe b =
     (case amneziaConfig b of
        None \<Rightarrow> True
      | Some cfg \<Rightarrow> 0 \<le> Jmin cfg \<and> 0 \<le> Jmax cfg \<and> Jmax cfg < max_int)"

text \<open>
  The time of the last admitted trigger of a destination as \<open>maybePreflight\<close> reads it, and
  the elapsed time since then.
\<close>

definition last_trigger :: "Bind \<Rightarrow> addr \<Rightarrow> int" where
  "last_trigger b dst = (case lastSent b dst of None \<Rightarrow> zero_Time | Some t \<Rightarrow> t)"

definition elapsed :: "Bind \<Rightarrow> addr \<Rightarrow> int \<Rightarrow> int" where
  "elapsed b dst now = time_Sub now (last_trigger b dst)"

text \<open>
  A run of the rate limiter over a sequence of triggers, each a destination and the clock
  reading of its \<open>time.Now()\<close>: the triggers it admits, in order.
\<close>

fun run_admit :: "Bind \<Rightarrow> (addr \<times> int) list \<Rightarrow> (addr \<times> int) list" where
  "run_admit b [] = []"
| "run_admit b ((dst, now) # es) =
     (case admit b dst now of
        (ok, b1) \<Rightarrow> (if ok then [(dst, now)] else []) @ run_admit b1 es)"

definition admitted_times :: "Bind \<Rightarrow> addr \<Rightarrow> (addr \<times> int) list \<Rightarrow> int list" where
  "admitted_times b dst es = map snd (filter (\<lambda>e. fst e = dst) (run_admit b es))"

text \<open>Each time of the list is at least \<open>d\<close> after the one before it.\<close>

definition spaced :: "int \<Rightarrow> int list \<Rightarrow> bool" where
  "spaced d ts = successively (\<lambda>t1 t2. d \<le> time_Sub t2 t1) ts"

subsection \<open>Concrete inputs\<close>

definition Second :: int where
  "Second = 1000000000"

text \<open>
  A world whose clock starts at Unix time 1700000000 and advances by one second per reading,
  whose random sources count upwards, and where every dial succeeds.
\<close>

definition world0 :: world where
  "world0 =
     \<lparr>clock = (\<lambda>n. 1700000000 * 1000000000 + int n * 1000000000), ticks = 0,
      entropy = (\<lambda>n. Some (\<lambda>i. of_nat (n + i))), reads = 0,
      prng = (\<lambda>n. n), draws = 0,
      reach = (\<lambda>n. True), dials = 0,
      inner_err = (\<lambda>n. None), wire = [], forwarded = [], spawned = []\<rparr>"

definition config0 :: AmneziaConfig where
  "config0 =
     \<lparr>I1 = [], I2 = [], I3 = [], I4 = [], I5 = [], S1 = 0, S2 = 0, Jc = 0, Jmin = 24,
      Jmax = 1024, JcAfterI1 = 0, JcBeforeHS = 0, JcAfterHS = 0, JunkInterval = 0,
      AllowZeroSize = False, HandshakeDelay = 0\<rparr>"

definition bind0 :: Bind where
  "bind0 = \<lparr>port443 = 443, payload = [], amneziaConfig = Some config0,
            lastSent = Map.empty, interval = Second\<rparr>"

definition endpoint0 :: Endpoint where
  "endpoint0 = \<lparr>DstIP = ''162.159.192.1''\<rparr>"

text \<open>A handshake initiation: type byte 1, 148 bytes. A data packet: type byte 4.\<close>

definition initiation0 :: "byte list" where
  "initiation0 = 1 # replicate 147 0"

definition data0 :: "byte list" where
  "data0 = [4, 0, 0, 0, 9, 9]"

text \<open>Three triggers for one destination, at 0 s, 1 s and 1.5 s after \<open>10\<^sup>9\<close> ns.\<close>

definition triggers0 :: "(addr \<times> int) list" where
  "triggers0 = [(''162.159.192.1'', 1000000000), (''162.159.192.1'', 2000000000),
                (''162.159.192.1'', 2500000000)]"

text \<open>The engine after a trigger for the destination was admitted at \<open>10\<^sup>9\<close> ns.\<close>

definition bind_admitted :: Bind where
  "bind_admitted = snd (admit bind0 ''162.159.192.1'' 1000000000)"

text \<open>Junk sizes 5 to 2; sizes 0 to the largest \<open>int\<close>; sizes 0 to -1 with one junk packet.\<close>

definition config52 :: AmneziaConfig where
  "config52 = config0\<lparr>Jmin := 5, Jmax := 2\<rparr>"

definition bind52 :: Bind where
  "bind52 = bind0\<lparr>amneziaConfig := Some config52\<rparr>"

definition config_maxint :: AmneziaConfig where
  "config_maxint = config0\<lparr>Jmin := 0, Jmax := 9223372036854775807\<rparr>"

definition bind_maxint :: Bind where
  "bind_maxint = bind0\<lparr>amneziaConfig := Some config_maxint\<rparr>"

definition config_neg :: AmneziaConfig where
  "config_neg = config0\<lparr>Jmin := 0, Jmax := - 1, JcBeforeHS := 1\<rparr>"

definition bind_neg :: Bind where
  "bind_neg = bind0\<lparr>amneziaConfig := Some config_neg\<rparr>"

text \<open>
  Five junk packets before the handshake and a junk train of two, with the default sizes;
  and one zero-size junk packet before the handshake.
\<close>

definition config_junk :: AmneziaConfig where
  "config_junk = config0\<lparr>Jc := 2, JcBeforeHS := 5\<rparr>"

definition bind_junk :: Bind where
  "bind_junk = bind0\<lparr>amneziaConfig := Some config_junk\<rparr>"

definition config_zero :: AmneziaConfig where
  "config_zero = config0\<lparr>Jmin := 0, Jmax := 0, JcBeforeHS := 1\<rparr>"

definition bind_zero :: Bind where
  "bind_zero = bind0\<lparr>amneziaConfig := Some config_zero\<rparr>"

text \<open>
  A \<open><b>\<close> tag with a tab between its hex digits, and a template of three tags. A world
  whose \<open>crypto/rand\<close> always fails. Configurations with a malformed I2, with a random I1,
  and with timestamps as I1 and I2; the engine built from the last one in \<open>world0\<close>, and the
  world after its construction.
\<close>

definition template_tab :: string where
  "template_tab = ''<b c0'' @ [CHR 0x09] @ ''ff>''"

definition template3 :: string where
  "template3 = ''<c><b 0x C0 fF ><r 2>''"

definition world_dry :: world where
  "world_dry = world0\<lparr>entropy := (\<lambda>n. None)\<rparr>"

definition config_badI2 :: AmneziaConfig where
  "config_badI2 = config0\<lparr>I1 := ''<b c0ffee>'', I2 := ''<b zz>''\<rparr>"

definition config_r4 :: AmneziaConfig where
  "config_r4 = config0\<lparr>I1 := ''<r 4>''\<rparr>"

definition config_t :: AmneziaConfig where
  "config_t = config0\<lparr>I1 := ''<t>'', I2 := ''<t>''\<rparr>"

definition bind_t :: Bind where
  "bind_t = projr (fst (NewWithAmnezia (Some config_t) 443 Second world0))"

definition world_t :: world where
  "world_t = snd (NewWithAmnezia (Some config_t) 443 Second world0)"

section \<open>Verified properties\<close>

subsection \<open>The rate limiter\<close>

lemma admit_eq:
  "admit b dst now =
     (if interval b \<le> elapsed b dst now
      then (True, b\<lparr>lastSent := (lastSent b)(dst \<mapsto> now)\<rparr>)
      else (False, b))"
  by (simp add: admit_def elapsed_def last_trigger_def Let_def)

lemma spaced_from:
  "spaced (interval b) (case lastSent b dst of None \<Rightarrow> admitted_times b dst es
                         | Some t0 \<Rightarrow> t0 # admitted_times b dst es)"
proof (induction es arbitrary: b)
  case Nil
  show ?case by (simp add: admitted_times_def spaced_def split: option.split)
next
  case (Cons e es)
  obtain d now where e: "e = (d, now)" by (cases e)
  show ?case
  proof (cases "interval b \<le> elapsed b d now")
    case False
    then have "admitted_times b dst (e # es) = admitted_times b dst es"
      by (simp add: admitted_times_def e admit_eq)
    then show ?thesis using Cons.IH [of b] by (simp split: option.splits)
  next
    case True
    let ?b1 = "b\<lparr>lastSent := (lastSent b)(d \<mapsto> now)\<rparr>"
    have run: "run_admit b (e # es) = (d, now) # run_admit ?b1 es"
      using True by (simp add: e admit_eq)
    show ?thesis
    proof (cases "d = dst")
      case False
      then have "admitted_times b dst (e # es) = admitted_times ?b1 dst es"
        by (simp add: admitted_times_def run)
      moreover have "lastSent ?b1 dst = lastSent b dst" using False by simp
      ultimately show ?thesis using Cons.IH [of ?b1] by (simp split: option.splits)
    next
      case d: True
      have at: "admitted_times b dst (e # es) = now # admitted_times ?b1 dst es"
        using d by (simp add: admitted_times_def run)
      have ih: "spaced (interval b) (now # admitted_times ?b1 dst es)"
        using Cons.IH [of ?b1] d by simp
      show ?thesis
      proof (cases "lastSent b dst")
        case None
        then show ?thesis using at ih by simp
      next
        case (Some t0)
        have "interval b \<le> time_Sub now t0"
          using True d Some by (simp add: elapsed_def last_trigger_def)
        then show ?thesis using at ih Some by (simp add: spaced_def)
      qed
    qed
  qed
qed

lemma spaced_tl: "spaced d (t # ts) \<Longrightarrow> spaced d ts"
  by (cases ts) (simp_all add: spaced_def)

text \<open>
  C4, as the claim states it, fails: two triggers for one destination exactly the minimum
  interval apart are both admitted, although the elapsed time does not exceed the interval.
\<close>

theorem C4_counterexample:
  "fst (admit bind_admitted ''162.159.192.1'' 2000000000)
   \<and> \<not> interval bind_admitted < elapsed bind_admitted ''162.159.192.1'' 2000000000"
  by code_simp

text \<open>
  C4, amended: the rate limiter admits a trigger, and stores its time for the destination,
  exactly when the elapsed time since the destination's last admitted trigger (since the zero
  time, if it has none) is at least the minimum interval; otherwise it answers false and the
  engine is unchanged. Hence, in every run of the rate limiter from any state, the admitted
  triggers of a destination are each at least the minimum interval after the one before.
\<close>

theorem C4_admit:
  "admit b dst now =
     (if interval b \<le> elapsed b dst now
      then (True, b\<lparr>lastSent := (lastSent b)(dst \<mapsto> now)\<rparr>)
      else (False, b))
   \<and> spaced (interval b) (admitted_times b dst es)"
proof
  show "admit b dst now =
     (if interval b \<le> elapsed b dst now
      then (True, b\<lparr>lastSent := (lastSent b)(dst \<mapsto> now)\<rparr>)
      else (False, b))"
    by (rule admit_eq)
  show "spaced (interval b) (admitted_times b dst es)"
    using spaced_from [of b dst es] by (auto split: option.splits dest: spaced_tl)
qed

theorem C4_admit_witness:
  "admit bind_admitted ''162.159.192.1'' 1500000000 = (False, bind_admitted)
   \<and> admitted_times bind0 ''162.159.192.1'' triggers0 = [1000000000, 2000000000]
   \<and> spaced (interval bind0) (admitted_times bind0 ''162.159.192.1'' triggers0)"
proof -
  have c: "\<not> interval bind_admitted \<le> elapsed bind_admitted ''162.159.192.1'' 1500000000"
    by code_simp
  have "admit bind_admitted ''162.159.192.1'' 1500000000 = (False, bind_admitted)"
    using C4_admit [of bind_admitted "''162.159.192.1''" 1500000000 "[]"] c by simp
  moreover have "admitted_times bind0 ''162.159.192.1'' triggers0 = [1000000000, 2000000000]"
    by code_simp
  moreover have "spaced (interval bind0) (admitted_times bind0 ''162.159.192.1'' triggers0)"
    using C4_admit [of bind0 "''162.159.192.1''" 0 triggers0] by simp
  ultimately show ?thesis by simp
qed

subsection \<open>Batches without a handshake initiation\<close>

text \<open>
  C6: when no buffer of the batch has the length of an initiation at least and the
  initiation type in its first byte, \<open>Send\<close> only hands the batch to the wrapped bind and
  returns its result: the engine (and so the rate limiter's map) is as before, and of the
  world only the log of forwarded batches has grown, by this batch, so no decoy was written
  and no goroutine started.
\<close>

theorem C6_passthrough:
  assumes "\<not> list_ex (\<lambda>buf. MessageInitiationSize \<le> length buf
                              \<and> buf ! 0 = MessageInitiationType) bufs"
  shows "Send b bufs ep w =
           Some (inner_err w (length (forwarded w)), b,
                 w\<lparr>forwarded := forwarded w @ [(bufs, ep)]\<rparr>)"
proof -
  have "(\<lambda>buf. MessageInitiationSize \<le> length buf \<and> buf ! 0 = MessageInitiationType)
          = handshakeInitiation"
    by (auto simp: handshakeInitiation_def fun_eq_iff)
  with assms have "\<not> list_ex handshakeInitiation bufs" by simp
  then show ?thesis
    by (simp add: Send_def maybePreflight_def inner_Send_def Let_def)
qed

theorem C6_passthrough_witness:
  "\<not> list_ex (\<lambda>buf. MessageInitiationSize \<le> length buf
                      \<and> buf ! 0 = MessageInitiationType) [data0, [1, 0, 0, 0]]
   \<and> Send bind0 [data0, [1, 0, 0, 0]] endpoint0 world0 =
       Some (inner_err world0 (length (forwarded world0)), bind0,
             world0\<lparr>forwarded := forwarded world0 @ [([data0, [1, 0, 0, 0]], endpoint0)]\<rparr>)"
proof -
  have h: "\<not> list_ex (\<lambda>buf. MessageInitiationSize \<le> length buf
                      \<and> buf ! 0 = MessageInitiationType) [data0, [1, 0, 0, 0]]"
    by (simp add: MessageInitiationSize_def data0_def)
  from C6_passthrough [OF h] h show ?thesis by blast
qed

subsection \<open>The junk generator\<close>

lemma fallback_fill_total: "\<exists>bs w'. fallback_fill n w = Some (bs, w') \<and> length bs = n"
proof (induction n arbitrary: w)
  case 0
  show ?case by simp
next
  case (Suc n)
  obtain v w1 where i: "Intn 256 w = Some (v, w1)" by (simp add: Intn_def)
  from Suc [of w1] obtain bs w2 where "fallback_fill n w1 = Some (bs, w2)" "length bs = n"
    by blast
  with i show ?case by simp
qed

text \<open>Also when \<open>crypto/rand\<close> fails, the buffer is filled, by the fallback.\<close>

lemma fill_junk_total:
  assumes "0 \<le> sz"
  shows "\<exists>bs w'. fill_junk sz w = Some (bs, w') \<and> int (length bs) = sz"
proof (cases "entropy w (reads w)")
  case None
  obtain bs w' where "fallback_fill (nat sz) (w\<lparr>reads := Suc (reads w)\<rparr>) = Some (bs, w')"
      "length bs = nat sz"
    using fallback_fill_total by blast
  then show ?thesis using assms None by (simp add: fill_junk_def rand_Read_def)
next
  case (Some f)
  then show ?thesis using assms by (simp add: fill_junk_def rand_Read_def)
qed

lemma junk_range:
  assumes "0 < lo" "lo < hi" "hi \<le> max_int"
  shows "wrap64 (wrap64 (hi - lo) + 1) = hi - lo + 1"
    and "0 \<le> v \<Longrightarrow> v < hi - lo + 1 \<Longrightarrow> wrap64 (lo + v) = lo + v"
  using assms by (simp_all add: wrap64_def min_int_def max_int_def)

lemma generateJunkPacket_general:
  assumes cfg: "amneziaConfig b = Some cfg"
    and pos: "0 < Jmin cfg" and hi: "Jmax cfg \<le> max_int" and nz: "\<not> AllowZeroSize cfg"
  shows "\<exists>junk w'. generateJunkPacket b w = Some (junk, w') \<and>
           int (length junk) =
             (if Jmax cfg \<le> Jmin cfg then Jmin cfg
              else Jmin cfg + int (prng w (draws w)) mod (Jmax cfg - Jmin cfg + 1))"
proof (cases "Jmax cfg \<le> Jmin cfg")
  case True
  obtain bs w' where "fill_junk (Jmin cfg) w = Some (bs, w')" "int (length bs) = Jmin cfg"
    using fill_junk_total [of "Jmin cfg" w] pos by auto
  then show ?thesis using cfg pos nz True
    by (auto simp: generateJunkPacket_def Let_def)
next
  case False
  let ?k = "Jmax cfg - Jmin cfg + 1"
  let ?v = "int (prng w (draws w)) mod ?k"
  let ?w1 = "w\<lparr>draws := Suc (draws w)\<rparr>"
  have k: "wrap64 (wrap64 (Jmax cfg - Jmin cfg) + 1) = ?k"
    using junk_range(1) [of "Jmin cfg" "Jmax cfg"] pos hi False by simp
  have kpos: "0 < ?k" using False by simp
  have v: "0 \<le> ?v" "?v < ?k"
    using kpos by (rule pos_mod_sign, rule pos_mod_bound)
  have s: "wrap64 (Jmin cfg + ?v) = Jmin cfg + ?v"
    using junk_range(2) [of "Jmin cfg" "Jmax cfg" ?v] pos hi False v by simp
  have i: "Intn ?k w = Some (?v, ?w1)" using kpos by (simp add: Intn_def)
  obtain bs w' where f: "fill_junk (Jmin cfg + ?v) ?w1 = Some (bs, w')"
      "int (length bs) = Jmin cfg + ?v"
    using fill_junk_total [of "Jmin cfg + ?v" ?w1] pos v by auto
  have "Jmin cfg + ?v \<noteq> 0" using pos v by simp
  then show ?thesis using cfg pos nz False k s i f
    by (simp add: generateJunkPacket_def Let_def)
qed

lemma generateJunkPacket_total:
  assumes cfg: "amneziaConfig b = Some cfg"
    and lo: "0 \<le> Jmin cfg" and hi0: "0 \<le> Jmax cfg" and hi: "Jmax cfg < max_int"
  shows "\<exists>junk w'. generateJunkPacket b w = Some (junk, w')"
proof (cases "Jmin cfg = 0")
  case True
  show ?thesis
  proof (cases "Jmax cfg = 0")
    case True
    with \<open>Jmin cfg = 0\<close> cfg show ?thesis by (simp add: generateJunkPacket_def)
  next
    case False
    let ?k = "Jmax cfg + 1"
    let ?v = "int (prng w (draws w)) mod ?k"
    let ?w1 = "w\<lparr>draws := Suc (draws w)\<rparr>"
    have k: "wrap64 ?k = ?k" using hi0 hi by (simp add: wrap64_def min_int_def max_int_def)
    have kpos: "0 < ?k" using hi0 by simp
    have i: "Intn ?k w = Some (?v, ?w1)" using kpos by (simp add: Intn_def)
    have "0 \<le> ?v" using kpos by (rule pos_mod_sign)
    then obtain bs w' where "fill_junk ?v ?w1 = Some (bs, w')"
      using fill_junk_total [of ?v ?w1] by blast
    then show ?thesis using cfg True False k i
      by (simp add: generateJunkPacket_def Let_def)
  qed
next
  case False
  then have pos: "0 < Jmin cfg" using lo by simp
  have hi': "Jmax cfg \<le> max_int" using hi by simp
  show ?thesis
  proof (cases "AllowZeroSize cfg")
    case False
    then show ?thesis using generateJunkPacket_general [OF cfg pos hi', of w] by blast
  next
    case True
    let ?w1 = "w\<lparr>draws := Suc (draws w)\<rparr>"
    let ?z = "int (prng w (draws w)) mod 2"
    have i: "Intn 2 w = Some (?z, ?w1)" by (simp add: Intn_def)
    show ?thesis
    proof (cases "?z = 0")
      case z: True
      then show ?thesis using cfg pos True i by (simp add: generateJunkPacket_def Let_def)
    next
      case z: False
      let ?b = "b\<lparr>amneziaConfig := Some (cfg\<lparr>AllowZeroSize := False\<rparr>)\<rparr>"
      have "\<exists>junk w'. generateJunkPacket ?b ?w1 = Some (junk, w')"
        using generateJunkPacket_general [of ?b "cfg\<lparr>AllowZeroSize := False\<rparr>" ?w1] pos hi'
        by auto
      moreover have "generateJunkPacket b w = generateJunkPacket ?b ?w1"
        using cfg pos True i z by (simp add: generateJunkPacket_def Let_def)
      ultimately show ?thesis by simp
    qed
  qed
qed

lemma generateJunkPacket_panic:
  assumes cfg: "amneziaConfig b = Some cfg"
    and "Jmin cfg = 0" "Jmax cfg < 0" "min_int \<le> Jmax cfg"
  shows "generateJunkPacket b w = None"
proof -
  have "wrap64 (Jmax cfg + 1) = Jmax cfg + 1"
    using assms by (simp add: wrap64_def min_int_def)
  then have "Intn (wrap64 (Jmax cfg + 1)) w = None" using assms by (simp add: Intn_def)
  then show ?thesis using assms by (simp add: generateJunkPacket_def Let_def)
qed

lemma generateJunkPacket_overflow:
  assumes cfg: "amneziaConfig b = Some cfg"
    and "Jmin cfg = 0" "Jmax cfg = max_int"
  shows "generateJunkPacket b w = None"
proof -
  have "Intn (wrap64 (Jmax cfg + 1)) w = None"
    using assms by (simp add: Intn_def wrap64_def min_int_def max_int_def)
  then show ?thesis using assms by (simp add: generateJunkPacket_def Let_def max_int_def)
qed

text \<open>
  C9: with a positive \<open>Jmin\<close> and \<open>AllowZeroSize\<close> off, \<open>generateJunkPacket\<close> returns (it
  does not panic, whatever the random sources do), and the size of the packet is \<open>Jmin\<close>
  when \<open>Jmax \<le> Jmin\<close>, and otherwise \<open>Jmin\<close> plus one draw of \<open>rng.Intn(Jmax - Jmin + 1)\<close>:
  a size between \<open>Jmin\<close> and \<open>Jmax\<close> inclusive, each of which one value of the draw gives.
  So sizes 5 to 2 give 5 bytes and sizes 10 to 10 give 10 bytes, in every world.
  (\<open>Jmax \<le> max_int\<close> says that \<open>Jmax\<close> is a value of Go's \<open>int\<close>.)
\<close>

theorem C9_generate:
  assumes "amneziaConfig b = Some cfg" and "0 < Jmin cfg" and "Jmax cfg \<le> max_int"
    and "\<not> AllowZeroSize cfg"
  shows "\<exists>junk w'. generateJunkPacket b w = Some (junk, w')
           \<and> int (length junk) =
               (if Jmax cfg \<le> Jmin cfg then Jmin cfg
                else Jmin cfg + int (prng w (draws w)) mod (Jmax cfg - Jmin cfg + 1))
           \<and> Jmin cfg \<le> int (length junk) \<and> int (length junk) \<le> max (Jmin cfg) (Jmax cfg)
           \<and> (\<forall>s. Jmin cfg \<le> s \<and> s \<le> Jmax cfg \<and> int (prng w (draws w)) = s - Jmin cfg
                  \<longrightarrow> int (length junk) = s)
           \<and> (Jmin cfg = 5 \<and> Jmax cfg = 2 \<longrightarrow> length junk = 5)
           \<and> (Jmin cfg = 10 \<and> Jmax cfg = 10 \<longrightarrow> length junk = 10)"
proof -
  let ?k = "Jmax cfg - Jmin cfg + 1"
  let ?v = "int (prng w (draws w)) mod ?k"
  obtain junk w' where g: "generateJunkPacket b w = Some (junk, w')"
    and l: "int (length junk) = (if Jmax cfg \<le> Jmin cfg then Jmin cfg else Jmin cfg + ?v)"
    using generateJunkPacket_general [OF assms, of w] by blast
  have lo: "Jmin cfg \<le> int (length junk)"
  proof (cases "Jmax cfg \<le> Jmin cfg")
    case True
    then show ?thesis using l by simp
  next
    case False
    then have "0 \<le> ?v" by (intro pos_mod_sign) simp
    then show ?thesis using l False by simp
  qed
  have hi: "int (length junk) \<le> max (Jmin cfg) (Jmax cfg)"
  proof (cases "Jmax cfg \<le> Jmin cfg")
    case True
    then show ?thesis using l by simp
  next
    case False
    then have "?v < ?k" by (intro pos_mod_bound) simp
    then show ?thesis using l False by simp
  qed
  have each: "\<forall>s. Jmin cfg \<le> s \<and> s \<le> Jmax cfg \<and> int (prng w (draws w)) = s - Jmin cfg
                  \<longrightarrow> int (length junk) = s"
  proof (intro allI impI)
    fix s
    assume s: "Jmin cfg \<le> s \<and> s \<le> Jmax cfg \<and> int (prng w (draws w)) = s - Jmin cfg"
    show "int (length junk) = s"
    proof (cases "Jmax cfg \<le> Jmin cfg")
      case True
      then show ?thesis using l s by simp
    next
      case False
      have "?v = s - Jmin cfg" using s by (simp add: mod_pos_pos_trivial)
      then show ?thesis using l False by simp
    qed
  qed
  have p1: "Jmin cfg = 5 \<and> Jmax cfg = 2 \<longrightarrow> length junk = 5" using l by auto
  have p2: "Jmin cfg = 10 \<and> Jmax cfg = 10 \<longrightarrow> length junk = 10" using l by auto
  from g l lo hi each p1 p2 show ?thesis by blast
qed

theorem C9_generate_witness:
  "\<exists>junk w'. generateJunkPacket bind52 world0 = Some (junk, w') \<and> length junk = 5"
proof -
  have h: "amneziaConfig bind52 = Some config52" "0 < Jmin config52"
      "Jmax config52 \<le> max_int" "\<not> AllowZeroSize config52"
    by (simp_all add: bind52_def config52_def config0_def bind0_def max_int_def)
  have "Jmin config52 = 5 \<and> Jmax config52 = 2" by (simp add: config52_def)
  with C9_generate [OF h, of world0] show ?thesis by blast
qed

text \<open>
  C10, as the claim states it, fails: with \<open>Jmin = 0\<close> and \<open>Jmax\<close> the largest \<open>int\<close>, both
  non-negative, \<open>maxSize + 1\<close> wraps around to the least \<open>int\<close> and \<open>rng.Intn\<close> panics.
\<close>

theorem C10_counterexample:
  "amneziaConfig bind_maxint = Some config_maxint
   \<and> 0 \<le> Jmin config_maxint \<and> 0 \<le> Jmax config_maxint
   \<and> generateJunkPacket bind_maxint world0 = None"
  by code_simp

text \<open>
  C10, amended: under \<open>0 \<le> Jmin\<close> and \<open>0 \<le> Jmax < max_int\<close>, \<open>generateJunkPacket\<close> returns a
  packet in every world: each argument of \<open>rng.Intn\<close> is positive, and a failing
  \<open>crypto/rand\<close> is replaced by the \<open>math/rand\<close> fallback. With \<open>Jmin = 0\<close> it panics when
  \<open>Jmax\<close> is negative, and when \<open>Jmax\<close> is the largest \<open>int\<close>. (The allocation of the buffer
  is not modelled.)
\<close>

theorem C10_total:
  assumes "amneziaConfig b = Some cfg"
  shows "(0 \<le> Jmin cfg \<and> 0 \<le> Jmax cfg \<and> Jmax cfg < max_int
            \<longrightarrow> (\<exists>junk w'. generateJunkPacket b w = Some (junk, w')))
         \<and> (Jmin cfg = 0 \<and> (min_int \<le> Jmax cfg \<and> Jmax cfg < 0 \<or> Jmax cfg = max_int)
            \<longrightarrow> generateJunkPacket b w = None)"
  using generateJunkPacket_total [OF assms, of w] generateJunkPacket_panic [OF assms, of w]
    generateJunkPacket_overflow [OF assms, of w]
  by blast

theorem C10_total_witness:
  "(\<exists>junk w'. generateJunkPacket bind0 world0 = Some (junk, w'))
   \<and> generateJunkPacket bind_neg world0 = None"
proof -
  have a: "amneziaConfig bind0 = Some config0" by (simp add: bind0_def)
  have b: "0 \<le> Jmin config0 \<and> 0 \<le> Jmax config0 \<and> Jmax config0 < max_int"
    by (simp add: config0_def max_int_def)
  have c: "amneziaConfig bind_neg = Some config_neg" by (simp add: bind_neg_def)
  have d: "Jmin config_neg = 0
           \<and> (min_int \<le> Jmax config_neg \<and> Jmax config_neg < 0 \<or> Jmax config_neg = max_int)"
    by (simp add: config_neg_def min_int_def)
  from C10_total [OF a, of world0] b C10_total [OF c, of world0] d show ?thesis by blast
qed

subsection \<open>Send and a panic of the junk generator\<close>

text \<open>
  C2 at a failing input: the engine built from a configuration with junk sizes 0 to -1 and
  one junk packet before the handshake panics in \<open>Send\<close> on the first handshake initiation,
  inside \<open>rng.Intn(0)\<close>, before the batch reaches the wrapped bind.
\<close>

theorem C2_send_panics:
  "NewWithAmnezia (Some config_neg) 443 Second world0 = (Inr bind_neg, world0)
   \<and> Send bind_neg [initiation0] endpoint0 world0 = None"
proof
  show "NewWithAmnezia (Some config_neg) 443 Second world0 = (Inr bind_neg, world0)"
    by (simp add: NewWithAmnezia_def config_neg_def config0_def bind_neg_def bind0_def)
  have "Option.is_none (Send bind_neg [initiation0] endpoint0 world0)"
    by code_simp
  then show "Send bind_neg [initiation0] endpoint0 world0 = None"
    by (simp add: Option.is_none_def)
qed

subsection \<open>What the decoy sequences leave unchanged, and how many junk packets they send\<close>

lemma same_net_refl: "same_net w w"
  by (simp add: same_net_def)

lemma same_net_trans: "same_net w w1 \<Longrightarrow> same_net w1 w2 \<Longrightarrow> same_net w w2"
  by (simp add: same_net_def)

lemma same_net_Intn: "Intn n w = Some (v, w') \<Longrightarrow> same_net w w'"
  by (auto simp add: same_net_def Intn_def split: if_splits)

lemma same_net_rand_Read: "rand_Read n w = (r, w') \<Longrightarrow> same_net w w'"
  by (auto simp add: same_net_def rand_Read_def split: option.splits)

lemma same_net_fallback_fill: "fallback_fill n w = Some (bs, w') \<Longrightarrow> same_net w w'"
proof (induction n arbitrary: w bs)
  case 0
  then show ?case by (simp add: same_net_refl)
next
  case (Suc n)
  from Suc.prems obtain v w1 bs1 where i: "Intn 256 w = Some (v, w1)"
    and f: "fallback_fill n w1 = Some (bs1, w')"
    by (auto split: option.splits)
  from same_net_Intn [OF i] Suc.IH [OF f] show ?case by (rule same_net_trans)
qed

lemma same_net_fill_junk: "fill_junk sz w = Some (bs, w') \<Longrightarrow> same_net w w'"
  by (auto simp: fill_junk_def split: if_splits option.splits prod.splits
      dest!: same_net_rand_Read same_net_fallback_fill intro: same_net_trans)

lemma same_net_generateJunkPacket:
  "generateJunkPacket b w = Some (junk, w') \<Longrightarrow> same_net w w'"
  by (auto simp: generateJunkPacket_def Let_def same_net_refl
      split: option.splits if_splits prod.splits
      dest!: same_net_Intn same_net_fill_junk intro: same_net_trans)

lemma junk_step_refl: "junk_step 0 w w"
  by (simp add: junk_step_def decoy_only_def)

lemma junk_step_trans: "junk_step j w w1 \<Longrightarrow> junk_step k w1 w2 \<Longrightarrow> junk_step (j + k) w w2"
  by (simp add: junk_step_def decoy_only_def all_reachable_def)

lemma junk_step_same_net: "same_net w w' \<Longrightarrow> junk_step 0 w w'"
  by (simp add: junk_step_def decoy_only_def same_net_def junk_sends_def)

lemma junk_step_Sleep: "junk_step 0 w (time_Sleep d w)"
  by (simp add: time_Sleep_def junk_step_refl)

lemma junk_step_sendStandardZeroByte: "junk_step 1 w (sendStandardZeroByte b host w)"
  by (simp add: sendStandardZeroByte_def net_op_def conn_Write_def Let_def all_reachable_def
      junk_step_def decoy_only_def junk_sends_def is_junk_send_def)

lemma junk_step_sendUDPPacket: "junk_step 1 w (sendUDPPacket b host data w)"
  using junk_step_sendStandardZeroByte [of w b host]
  by (simp add: sendUDPPacket_def sendTrueZeroByteUDP_def net_op_def conn_Write_def Let_def
      all_reachable_def junk_step_def decoy_only_def junk_sends_def is_junk_send_def)

lemma junk_loop_step:
  "junk_loop b host i count ival w = Some w' \<Longrightarrow> junk_step (nat (count - i)) w w'"
proof (induction b host i count ival w rule: junk_loop.induct)
  case (1 b host i count ival w)
  show ?case
  proof (cases "i < count")
    case False
    then have "junk_loop b host i count ival w = Some w"
      by (subst junk_loop.simps) simp
    then show ?thesis using False "1.prems" by (simp add: junk_step_refl)
  next
    case True
    obtain junk w1 where g: "generateJunkPacket b w = Some (junk, w1)"
      using "1.prems" True by (subst (asm) junk_loop.simps) (auto split: option.splits)
    define w2 where "w2 = sendUDPPacket b host junk w1"
    define w3 where "w3 = (if i < count - 1 \<and> ival > 0 then time_Sleep ival w2 else w2)"
    have s1: "junk_step 0 w w1" using same_net_generateJunkPacket [OF g] by (rule junk_step_same_net)
    have s2: "junk_step 1 w1 w2" unfolding w2_def by (rule junk_step_sendUDPPacket)
    have s3: "junk_step 0 w2 w3" unfolding w3_def by (simp add: junk_step_Sleep junk_step_refl)
    have s: "junk_step 1 w w3" using junk_step_trans [OF junk_step_trans [OF s1 s2] s3] by simp
    have "junk_loop b host i count ival w = junk_loop b host (i + 1) count ival w3"
      using True g by (subst junk_loop.simps) (simp add: w2_def w3_def Let_def)
    then have l: "junk_loop b host (i + 1) count ival w3 = Some w'" using "1.prems" by simp
    have t: "junk_step (nat (count - (i + 1))) w3 w'"
      using "1.IH" [OF True g refl w2_def w3_def l] .
    show ?thesis
      using junk_step_trans [OF s t] True by (simp add: nat_diff_distrib' Suc_nat_eq_nat_zadd1 algebra_simps)
  qed
qed

lemma junk_loop_total:
  assumes "junk_safe b" "amneziaConfig b \<noteq> None"
  shows "\<exists>w'. junk_loop b host i count ival w = Some w'"
  using assms
proof (induction b host i count ival w rule: junk_loop.induct)
  case (1 b host i count ival w)
  show ?case
  proof (cases "i < count")
    case False
    then show ?thesis by (subst junk_loop.simps) simp
  next
    case True
    obtain cfg where c: "amneziaConfig b = Some cfg" using "1.prems" by auto
    obtain junk w1 where g: "generateJunkPacket b w = Some (junk, w1)"
      using generateJunkPacket_total [OF c, of w] "1.prems" c by (auto simp: junk_safe_def)
    define w2 where "w2 = sendUDPPacket b host junk w1"
    define w3 where "w3 = (if i < count - 1 \<and> ival > 0 then time_Sleep ival w2 else w2)"
    have "junk_loop b host i count ival w = junk_loop b host (i + 1) count ival w3"
      using True g by (subst junk_loop.simps) (simp add: w2_def w3_def Let_def)
    then show ?thesis using "1.IH" [OF True g refl w2_def w3_def] "1.prems" by simp
  qed
qed

lemma sendJunkPackets_step:
  "sendJunkPackets b host count ival w = Some w' \<Longrightarrow> junk_step (nat count) w w'"
  using junk_loop_step [of b host 0 count ival w w']
  by (auto simp: sendJunkPackets_def junk_step_refl split: if_splits)

lemma sendJunkPackets_total:
  "junk_safe b \<Longrightarrow> amneziaConfig b \<noteq> None \<Longrightarrow> \<exists>w'. sendJunkPackets b host count ival w = Some w'"
  using junk_loop_total [of b host 0 count ival w]
  by (simp add: sendJunkPackets_def)

lemma resolve_tag_b:
  "resolve_tag (CHR ''b'', d) w =
     (case b_tag_bytes d of None \<Rightarrow> (Inl InvalidHex, w) | Some bs \<Rightarrow> (Inr bs, w))"
  by (simp add: resolve_tag_def b_tag_bytes_def strip_0x_def Let_def split: option.split)

lemma resolve_tag_c:
  "resolve_tag (CHR ''c'', d) w =
     (Inr (be32 (word_of_int (go_rem (Unix (clock w (ticks w))) 0xFFFFFFFF))),
      w\<lparr>ticks := Suc (ticks w)\<rparr>)"
  by (simp add: resolve_tag_def time_Now_def Let_def)

lemma resolve_tag_t:
  "resolve_tag (CHR ''t'', d) w =
     (Inr (be32 (word_of_int (Unix (clock w (ticks w))))), w\<lparr>ticks := Suc (ticks w)\<rparr>)"
  by (simp add: resolve_tag_def time_Now_def Let_def)

lemma resolve_tag_r:
  "resolve_tag (CHR ''r'', d) w =
     (case r_tag_length d of
        None \<Rightarrow> (Inl InvalidLength, w)
      | Some len \<Rightarrow>
          if len > 0 then
            (case entropy w (reads w) of
               None \<Rightarrow> (Inl RandomFailure, w\<lparr>reads := Suc (reads w)\<rparr>)
             | Some f \<Rightarrow> (Inr (map f [0..<nat len]), w\<lparr>reads := Suc (reads w)\<rparr>))
          else (Inr [], w))"
  by (simp add: resolve_tag_def r_tag_length_def rand_Read_def Let_def split: option.split)

lemma resolve_tag_other:
  "l \<noteq> CHR ''b'' \<Longrightarrow> l \<noteq> CHR ''c'' \<Longrightarrow> l \<noteq> CHR ''t'' \<Longrightarrow> l \<noteq> CHR ''r'' \<Longrightarrow>
   resolve_tag (l, d) w = (Inr [], w)"
  by (simp add: resolve_tag_def Let_def)

lemma same_net_resolve_tag: "same_net w (snd (resolve_tag m w))"
proof -
  obtain l d where m: "m = (l, d)" by (cases m)
  consider "l = CHR ''b''" | "l = CHR ''c''" | "l = CHR ''t''" | "l = CHR ''r''"
    | "l \<noteq> CHR ''b''" "l \<noteq> CHR ''c''" "l \<noteq> CHR ''t''" "l \<noteq> CHR ''r''" by blast
  then show ?thesis
  proof cases
    case 1
    then show ?thesis by (simp add: m resolve_tag_b same_net_def split: option.split)
  next
    case 2
    then show ?thesis by (simp add: m resolve_tag_c same_net_def)
  next
    case 3
    then show ?thesis by (simp add: m resolve_tag_t same_net_def)
  next
    case 4
    then show ?thesis by (simp add: m resolve_tag_r same_net_def split: option.split)
  next
    case 5
    then show ?thesis by (simp add: m resolve_tag_other same_net_def)
  qed
qed

lemma same_net_parse_matches: "parse_matches ms acc w = (r, w') \<Longrightarrow> same_net w w'"
proof (induction ms arbitrary: acc w)
  case Nil
  then show ?case by (simp add: same_net_refl)
next
  case (Cons m ms)
  obtain x w1 where t: "resolve_tag m w = (x, w1)" by (cases "resolve_tag m w")
  then have s: "same_net w w1" using same_net_resolve_tag [of w m] by simp
  show ?case
  proof (cases x)
    case (Inl e)
    with t s Cons.prems show ?thesis by simp
  next
    case (Inr bs)
    with t Cons.prems have "parse_matches ms (acc @ bs) w1 = (r, w')" by simp
    from same_net_trans [OF s Cons.IH [OF this]] show ?thesis .
  qed
qed

lemma same_net_parseCPSPacket: "parseCPSPacket cps w = (r, w') \<Longrightarrow> same_net w w'"
  using same_net_parse_matches [of "FindAllStringSubmatch cps" "[]" w r w']
  by (auto simp: parseCPSPacket_def same_net_refl split: if_splits)

lemma junk_step_send_signatures: "junk_step 0 w (send_signatures b host sigs w)"
proof (induction b host sigs w rule: send_signatures.induct)
  case (1 b host w)
  show ?case by (simp add: junk_step_refl)
next
  case (2 b host i sig sigs w)
  show ?case
  proof (cases "i = 0 \<or> sig = []")
    case True
    then show ?thesis using "2.IH"(1) by simp
  next
    case False
    obtain r w1 where p: "parseCPSPacket sig w = (r, w1)" by (cases "parseCPSPacket sig w")
    have s1: "junk_step 0 w w1" using same_net_parseCPSPacket [OF p] by (rule junk_step_same_net)
    show ?thesis
    proof (cases r)
      case (Inl err)
      have "junk_step 0 w1 (send_signatures b host sigs w1)"
        using "2.IH"(2) [OF False p [symmetric] Inl] .
      then show ?thesis using False p Inl junk_step_trans [OF s1] by simp
    next
      case (Inr packet)
      show ?thesis
      proof (cases "length packet = 0")
        case True
        have "junk_step 0 w1 (send_signatures b host sigs w1)"
          using "2.IH"(3) [OF False p [symmetric] Inr True] .
        then show ?thesis using False p Inr True junk_step_trans [OF s1] by simp
      next
        case ne: False
        obtain ok w2 where n: "net_op w1 = (ok, w2)" by (cases "net_op w1")
        define w3 where "w3 = (if ok then conn_Write WriteSig host (port443 b) packet w2 else w2)"
        define w4 where "w4 = time_Sleep (3 * Millisecond) w3"
        have s2: "junk_step 0 w1 w4"
          using n by (auto simp: w4_def w3_def net_op_def conn_Write_def time_Sleep_def
              junk_step_def decoy_only_def junk_sends_def is_junk_send_def)
        have "junk_step 0 w4 (send_signatures b host sigs w4)"
          using "2.IH"(4) [OF False p [symmetric] Inr ne refl n [symmetric] w3_def w4_def] .
        then have "junk_step 0 w (send_signatures b host sigs w4)"
          using junk_step_trans [OF junk_step_trans [OF s1 s2]] by simp
        moreover have "send_signatures b host ((i, sig) # sigs) w = send_signatures b host sigs w4"
          using False p Inr ne n by (simp add: w3_def w4_def Let_def)
        ultimately show ?thesis by simp
      qed
    qed
  qed
qed

lemma executeFast_step:
  assumes "amneziaConfig b = Some cfg"
    and "executeFastPreHandshakeSequence b host w = Some w'"
  shows "junk_step (nat (min (JcBeforeHS cfg) 3)) w w'"
proof -
  define w1 where "w1 = send_signatures b host (enumerate 0 [[], I2 cfg, I3 cfg, I4 cfg, I5 cfg]) w"
  have s1: "junk_step 0 w w1" unfolding w1_def by (rule junk_step_send_signatures)
  show ?thesis
  proof (cases "JcBeforeHS cfg > 0")
    case False
    then have "w' = time_Sleep (2 * Millisecond) w1"
      using assms by (simp add: executeFastPreHandshakeSequence_def Let_def w1_def
          del: send_signatures.simps)
    then show ?thesis using s1 False by (simp add: time_Sleep_def)
  next
    case True
    let ?cc = "if JcBeforeHS cfg > 3 then 3 else JcBeforeHS cfg"
    obtain w3 where j: "sendJunkPackets b host ?cc (3 * Millisecond) (time_Sleep (3 * Millisecond) w1) = Some w3"
      and e: "w' = time_Sleep (2 * Millisecond) w3"
      using assms True
      by (auto simp: executeFastPreHandshakeSequence_def Let_def w1_def
          simp del: send_signatures.simps split: option.splits)
    have "junk_step (nat ?cc) w1 w3" using sendJunkPackets_step [OF j] by (simp add: time_Sleep_def)
    moreover have "nat ?cc = nat (min (JcBeforeHS cfg) 3)" by simp
    ultimately show ?thesis using junk_step_trans [OF s1] e by (simp add: time_Sleep_def)
  qed
qed

lemma executeFast_total:
  assumes "junk_safe b"
  shows "\<exists>w'. executeFastPreHandshakeSequence b host w = Some w'"
proof (cases "amneziaConfig b")
  case None
  then show ?thesis by (simp add: executeFastPreHandshakeSequence_def)
next
  case (Some cfg)
  then have n: "amneziaConfig b \<noteq> None" by simp
  define w1 where "w1 = send_signatures b host (enumerate 0 [[], I2 cfg, I3 cfg, I4 cfg, I5 cfg]) w"
  let ?cc = "if JcBeforeHS cfg > 3 then 3 else JcBeforeHS cfg"
  obtain w3 where
    "sendJunkPackets b host ?cc (3 * Millisecond) (time_Sleep (3 * Millisecond) w1) = Some w3"
    using sendJunkPackets_total [OF assms n] by blast
  then show ?thesis using Some
    by (simp add: executeFastPreHandshakeSequence_def Let_def w1_def del: send_signatures.simps)
qed

lemma executePost_step:
  assumes "amneziaConfig b = Some cfg"
    and "executePostHandshakeSequence b host w = Some w'"
  shows "junk_step (nat (JcBeforeHS cfg - 3) + nat (Jc cfg) + nat (JcAfterI1 cfg)
                    + nat (JcAfterHS cfg)) w w'"
proof -
  let ?ji = "if JunkInterval cfg = 0 then 10 * Millisecond else JunkInterval cfg"
  obtain w1 w2 w3 where
    a: "(if JcBeforeHS cfg > 3 then sendJunkPackets b host (JcBeforeHS cfg - 3) ?ji w
         else Some w) = Some w1"
    and b: "(if Jc cfg > 0 then sendJunkPackets b host (Jc cfg) ?ji (time_Sleep (50 * Millisecond) w1)
         else Some w1) = Some w2"
    and c: "(if JcAfterI1 cfg > 0
         then sendJunkPackets b host (JcAfterI1 cfg) ?ji (time_Sleep (30 * Millisecond) w2)
         else Some w2) = Some w3"
    and d: "(if JcAfterHS cfg > 0
         then sendJunkPackets b host (JcAfterHS cfg) ?ji (time_Sleep (50 * Millisecond) w3)
         else Some w3) = Some w'"
    using assms
    by (auto simp: executePostHandshakeSequence_def Let_def split: option.splits)
  have sa: "junk_step (nat (JcBeforeHS cfg - 3)) w w1"
    using a sendJunkPackets_step [of b host "JcBeforeHS cfg - 3" ?ji w w1]
    by (auto simp: junk_step_refl split: if_splits)
  have sb: "junk_step (nat (Jc cfg)) w1 w2"
    using b sendJunkPackets_step [of b host "Jc cfg" ?ji w1 w2]
    by (auto simp: junk_step_refl time_Sleep_def split: if_splits)
  have sc: "junk_step (nat (JcAfterI1 cfg)) w2 w3"
    using c sendJunkPackets_step [of b host "JcAfterI1 cfg" ?ji w2 w3]
    by (auto simp: junk_step_refl time_Sleep_def split: if_splits)
  have sd: "junk_step (nat (JcAfterHS cfg)) w3 w'"
    using d sendJunkPackets_step [of b host "JcAfterHS cfg" ?ji w3 w']
    by (auto simp: junk_step_refl time_Sleep_def split: if_splits)
  from junk_step_trans [OF junk_step_trans [OF junk_step_trans [OF sa sb] sc] sd]
  show ?thesis .
qed

lemma executePost_total:
  assumes "junk_safe b"
  shows "\<exists>w'. executePostHandshakeSequence b host w = Some w'"
proof (cases "amneziaConfig b")
  case None
  then show ?thesis by (simp add: executePostHandshakeSequence_def)
next
  case (Some cfg)
  then have n: "amneziaConfig b \<noteq> None" by simp
  let ?ji = "if JunkInterval cfg = 0 then 10 * Millisecond else JunkInterval cfg"
  have "\<exists>w1. (if JcBeforeHS cfg > 3 then sendJunkPackets b host (JcBeforeHS cfg - 3) ?ji w
         else Some w) = Some w1"
    using sendJunkPackets_total [OF assms n, of host "JcBeforeHS cfg - 3" ?ji w]
    by simp
  then obtain w1 where
    a: "(if JcBeforeHS cfg > 3 then sendJunkPackets b host (JcBeforeHS cfg - 3) ?ji w
         else Some w) = Some w1"
    by blast
  have "\<exists>w2. (if Jc cfg > 0 then sendJunkPackets b host (Jc cfg) ?ji (time_Sleep (50 * Millisecond) w1)
         else Some w1) = Some w2"
    using sendJunkPackets_total [OF assms n, of host "Jc cfg" ?ji "time_Sleep (50 * Millisecond) w1"]
    by simp
  then obtain w2 where
    b: "(if Jc cfg > 0 then sendJunkPackets b host (Jc cfg) ?ji (time_Sleep (50 * Millisecond) w1)
         else Some w1) = Some w2"
    by blast
  have "\<exists>w3. (if JcAfterI1 cfg > 0
         then sendJunkPackets b host (JcAfterI1 cfg) ?ji (time_Sleep (30 * Millisecond) w2)
         else Some w2) = Some w3"
    using sendJunkPackets_total [OF assms n, of host "JcAfterI1 cfg" ?ji
        "time_Sleep (30 * Millisecond) w2"]
    by simp
  then obtain w3 where
    c: "(if JcAfterI1 cfg > 0
         then sendJunkPackets b host (JcAfterI1 cfg) ?ji (time_Sleep (30 * Millisecond) w2)
         else Some w2) = Some w3"
    by blast
  have "\<exists>w4. (if JcAfterHS cfg > 0
         then sendJunkPackets b host (JcAfterHS cfg) ?ji (time_Sleep (50 * Millisecond) w3)
         else Some w3) = Some w4"
    using sendJunkPackets_total [OF assms n, of host "JcAfterHS cfg" ?ji
        "time_Sleep (50 * Millisecond) w3"]
    by simp
  then obtain w4 where
    d: "(if JcAfterHS cfg > 0
         then sendJunkPackets b host (JcAfterHS cfg) ?ji (time_Sleep (50 * Millisecond) w3)
         else Some w3) = Some w4"
    by blast
  show ?thesis using Some a b c d
    by (simp add: executePostHandshakeSequence_def Let_def)
qed

lemma executeMinimal_step:
  assumes "amneziaConfig b = Some cfg"
    and "executeMinimalPreHandshakeSequence b host w = Some w'"
  shows "\<exists>w4. junk_step (nat (min (JcBeforeHS cfg) 3)) w w4
              \<and> w' = go_executePostHandshakeSequence host w4"
proof -
  define w3 where "w3 = (if I1 cfg \<noteq> [] \<and> payload b \<noteq> [] then
                       (let (ok, w1) = net_op w;
                            w2 = (if ok then conn_Write WriteI1 host (port443 b) (payload b) w1
                                  else w1)
                        in time_Sleep (5 * Millisecond) w2)
                     else w)"
  have s1: "junk_step 0 w w3"
    by (simp add: w3_def net_op_def conn_Write_def time_Sleep_def Let_def
        junk_step_def decoy_only_def junk_sends_def is_junk_send_def)
  obtain w4 where f: "executeFastPreHandshakeSequence b host w3 = Some w4"
    and e: "w' = go_executePostHandshakeSequence host w4"
    using assms
    by (auto simp: executeMinimalPreHandshakeSequence_def w3_def split: option.splits)
  have s2: "junk_step (nat (min (JcBeforeHS cfg) 3)) w3 w4"
    using executeFast_step [OF assms(1) f] .
  from junk_step_trans [OF s1 s2] e show ?thesis by auto
qed

lemma executeMinimal_total:
  assumes "junk_safe b"
  shows "\<exists>w'. executeMinimalPreHandshakeSequence b host w = Some w'"
proof (cases "amneziaConfig b")
  case None
  then show ?thesis by (simp add: executeMinimalPreHandshakeSequence_def)
next
  case (Some cfg)
  define w3 where "w3 = (if I1 cfg \<noteq> [] \<and> payload b \<noteq> [] then
                       (let (ok, w1) = net_op w;
                            w2 = (if ok then conn_Write WriteI1 host (port443 b) (payload b) w1
                                  else w1)
                        in time_Sleep (5 * Millisecond) w2)
                     else w)"
  obtain w4 where "executeFastPreHandshakeSequence b host w3 = Some w4"
    using executeFast_total [OF assms] by blast
  then show ?thesis using Some
    by (simp add: executeMinimalPreHandshakeSequence_def w3_def)
qed

lemma maybePreflight_transport:
  assumes "maybePreflight b ep bufs w = Some (b', w')"
  shows "inner_err w' = inner_err w \<and> forwarded w' = forwarded w"
proof (cases "list_ex handshakeInitiation bufs")
  case False
  then show ?thesis using assms by (simp add: maybePreflight_def)
next
  case True
  define w1 where "w1 = w\<lparr>ticks := Suc (ticks w)\<rparr>"
  define now where "now = clock w (ticks w)"
  obtain ok b1 where a: "admit b (DstIP ep) now = (ok, b1)" by (cases "admit b (DstIP ep) now")
  have c: "amneziaConfig b1 = amneziaConfig b" using a by (auto simp: admit_def Let_def split: if_splits)
  have m: "maybePreflight b ep bufs w =
      (if \<not> ok then Some (b1, w1)
       else if amneziaConfig b1 \<noteq> None
            then (case executeMinimalPreHandshakeSequence b1 (DstIP ep) w1 of
                    None \<Rightarrow> None | Some w2 \<Rightarrow> Some (b1, w2))
            else Some (b1, executeSimplePreflight b1 (DstIP ep) w1))"
    using True a by (simp add: maybePreflight_def time_Now_def Let_def w1_def now_def)
  show ?thesis
  proof (cases ok)
    case False
    then have "w' = w1" using assms m by auto
    then show ?thesis by (simp add: w1_def)
  next
    case ok: True
    show ?thesis
    proof (cases "amneziaConfig b1")
      case None
      then have "w' = executeSimplePreflight b1 (DstIP ep) w1" using assms m ok by auto
      then show ?thesis
        by (simp add: executeSimplePreflight_def net_op_def conn_Write_def Let_def w1_def)
    next
      case (Some cfg)
      then have e: "executeMinimalPreHandshakeSequence b1 (DstIP ep) w1 = Some w'"
        using assms m ok by (auto split: option.splits)
      from executeMinimal_step [OF Some e] show ?thesis
        by (auto simp: junk_step_def decoy_only_def go_executePostHandshakeSequence_def w1_def)
    qed
  qed
qed

lemma maybePreflight_total:
  assumes "junk_safe b"
  shows "\<exists>b' w'. maybePreflight b ep bufs w = Some (b', w')"
proof (cases "list_ex handshakeInitiation bufs")
  case False
  then show ?thesis by (simp add: maybePreflight_def)
next
  case True
  define w1 where "w1 = w\<lparr>ticks := Suc (ticks w)\<rparr>"
  define now where "now = clock w (ticks w)"
  obtain ok b1 where a: "admit b (DstIP ep) now = (ok, b1)" by (cases "admit b (DstIP ep) now")
  have c: "amneziaConfig b1 = amneziaConfig b" using a by (auto simp: admit_def Let_def split: if_splits)
  then have j: "junk_safe b1" using assms by (simp add: junk_safe_def)
  obtain w2 where "executeMinimalPreHandshakeSequence b1 (DstIP ep) w1 = Some w2"
    using executeMinimal_total [OF j] by blast
  then show ?thesis using True a
    by (simp add: maybePreflight_def time_Now_def Let_def w1_def now_def)
qed

lemma Send_forwards:
  assumes "Send b bufs ep w = Some (r, b', w')"
  shows "r = inner_err w (length (forwarded w)) \<and> forwarded w' = forwarded w @ [(bufs, ep)]"
proof -
  obtain b1 w1 where m: "maybePreflight b ep bufs w = Some (b1, w1)"
    and r: "r = inner_err w1 (length (forwarded w1))"
    and w': "w' = w1\<lparr>forwarded := forwarded w1 @ [(bufs, ep)]\<rparr>"
    using assms by (auto simp: Send_def inner_Send_def split: option.splits)
  from maybePreflight_transport [OF m] r w' show ?thesis by simp
qed

lemma Send_total:
  assumes "junk_safe b"
  shows "\<exists>r b' w'. Send b bufs ep w = Some (r, b', w')"
proof -
  obtain b1 w1 where "maybePreflight b ep bufs w = Some (b1, w1)"
    using maybePreflight_total [OF assms] by blast
  then show ?thesis by (simp add: Send_def inner_Send_def)
qed

text \<open>
  Whenever \<open>Send\<close> returns, it has handed the caller's batch, unchanged, to the wrapped bind
  and returns that bind's result, whatever the decoy sends did; and it returns whenever the
  junk size bounds exclude a panic of the junk generator.
\<close>

lemma Send_returns_inner:
  "junk_safe b \<Longrightarrow>
   \<exists>b' w'. Send b bufs ep w = Some (inner_err w (length (forwarded w)), b', w')
            \<and> forwarded w' = forwarded w @ [(bufs, ep)]"
  using Send_total [of b bufs ep w] Send_forwards [of b bufs ep w] by blast

subsection \<open>The junk packets before the handshake\<close>

text \<open>
  C5, as the claim states it, fails: with junk sizes 0 to 0 and one junk packet before the
  handshake, the synchronous phase writes two junk datagrams, not min(1, 3) = 1: both methods
  of \<open>sendStandardZeroByte\<close> write the empty packet.
\<close>

theorem C5_counterexample:
  "JcBeforeHS config_zero = 1
   \<and> map_option (\<lambda>w. map dg_site (wire w))
        (executeMinimalPreHandshakeSequence bind_zero ''162.159.192.1'' world0)
      = Some [WriteZero1, WriteZero2]"
  by code_simp

text \<open>
  C5, amended: when the junk size bounds exclude a panic and every dial succeeds, the
  synchronous phase of a triggered sequence (\<open>executeMinimalPreHandshakeSequence\<close>, in the
  world \<open>w\<close>) sends exactly min(JcBeforeHS, 3) junk packets, none if that is negative, and
  starts the goroutine; and the asynchronous phase (\<open>executePostHandshakeSequence\<close>, in the
  world \<open>v\<close> it finds) sends exactly max(JcBeforeHS - 3, 0) more, followed by its other three
  junk trains; together JcBeforeHS before-handshake junk packets. Each junk packet is handed
  to \<open>sendUDPPacket\<close> once, which writes a non-empty packet once and an empty one twice.
\<close>

theorem C5_junk_counts:
  assumes "amneziaConfig b = Some cfg"
    and "0 \<le> Jmin cfg" and "0 \<le> Jmax cfg" and "Jmax cfg < max_int"
    and "all_reachable w" and "all_reachable v"
  shows "\<exists>w' v'. executeMinimalPreHandshakeSequence b host w = Some w'
           \<and> spawned w' = spawned w @ [host]
           \<and> junk_sends w' = junk_sends w + nat (min (JcBeforeHS cfg) 3)
           \<and> executePostHandshakeSequence b host v = Some v'
           \<and> junk_sends v' = junk_sends v + nat (max (JcBeforeHS cfg - 3) 0)
                               + nat (Jc cfg) + nat (JcAfterI1 cfg) + nat (JcAfterHS cfg)
           \<and> nat (min (JcBeforeHS cfg) 3) + nat (max (JcBeforeHS cfg - 3) 0)
               = nat (JcBeforeHS cfg)"
proof -
  have safe: "junk_safe b" using assms by (simp add: junk_safe_def)
  obtain w' where m: "executeMinimalPreHandshakeSequence b host w = Some w'"
    using executeMinimal_total [OF safe] by blast
  obtain w4 where s: "junk_step (nat (min (JcBeforeHS cfg) 3)) w w4"
    and w': "w' = go_executePostHandshakeSequence host w4"
    using executeMinimal_step [OF assms(1) m] by blast
  have a: "spawned w' = spawned w @ [host]"
    using s w' by (simp add: junk_step_def decoy_only_def go_executePostHandshakeSequence_def)
  have "junk_sends w' = junk_sends w4"
    using w' by (simp add: go_executePostHandshakeSequence_def junk_sends_def)
  then have b: "junk_sends w' = junk_sends w + nat (min (JcBeforeHS cfg) 3)"
    using s assms(5) by (simp add: junk_step_def)
  obtain v' where p: "executePostHandshakeSequence b host v = Some v'"
    using executePost_total [OF safe] by blast
  have c: "junk_sends v' = junk_sends v + nat (max (JcBeforeHS cfg - 3) 0)
                               + nat (Jc cfg) + nat (JcAfterI1 cfg) + nat (JcAfterHS cfg)"
    using executePost_step [OF assms(1) p] assms(6) by (simp add: junk_step_def max_def)
  have d: "nat (min (JcBeforeHS cfg) 3) + nat (max (JcBeforeHS cfg - 3) 0)
               = nat (JcBeforeHS cfg)"
    by (cases "JcBeforeHS cfg \<le> 3") (simp_all add: min_def max_def nat_diff_distrib')
  from m a b p c d show ?thesis by blast
qed

theorem C5_junk_counts_witness:
  "\<exists>w' v'. executeMinimalPreHandshakeSequence bind_junk ''162.159.192.1'' world0 = Some w'
           \<and> spawned w' = spawned world0 @ [''162.159.192.1'']
           \<and> junk_sends w' = junk_sends world0 + 3
           \<and> executePostHandshakeSequence bind_junk ''162.159.192.1'' world0 = Some v'
           \<and> junk_sends v' = junk_sends world0 + 2 + 2"
proof -
  have h: "amneziaConfig bind_junk = Some config_junk" "0 \<le> Jmin config_junk"
      "0 \<le> Jmax config_junk" "Jmax config_junk < max_int" "all_reachable world0"
    by (simp_all add: bind_junk_def config_junk_def config0_def bind0_def max_int_def
        all_reachable_def world0_def)
  have c: "JcBeforeHS config_junk = 5" "Jc config_junk = 2" "JcAfterI1 config_junk = 0"
      "JcAfterHS config_junk = 0"
    by (simp_all add: config_junk_def config0_def)
  from C5_junk_counts [OF h h(5), of "''162.159.192.1''"] show ?thesis
    unfolding c by simp
qed

subsection \<open>The parser, tag by tag\<close>

lemma parseCPSPacket_eq: "parseCPSPacket cps w = parse_matches (FindAllStringSubmatch cps) [] w"
  by (cases cps) (simp_all add: parseCPSPacket_def)

lemma parse_matches_acc:
  "parse_matches ms acc w =
     (case parse_matches ms [] w of
        (Inl e, w') \<Rightarrow> (Inl e, w')
      | (Inr out, w') \<Rightarrow> (Inr (acc @ out), w'))"
proof (induction ms arbitrary: acc w)
  case Nil
  show ?case by simp
next
  case (Cons m ms)
  obtain x w1 where t: "resolve_tag m w = (x, w1)" by (cases "resolve_tag m w")
  show ?case
  proof (cases x)
    case (Inl e)
    with t show ?thesis by simp
  next
    case (Inr bs)
    obtain y w2 where p: "parse_matches ms [] w1 = (y, w2)" by (cases "parse_matches ms [] w1")
    have a: "parse_matches ms (acc @ bs) w1 =
        (case y of Inl e \<Rightarrow> (Inl e, w2) | Inr out \<Rightarrow> (Inr ((acc @ bs) @ out), w2))"
      using Cons.IH [of "acc @ bs" w1] p by (simp split: sum.split)
    have b: "parse_matches ms bs w1 =
        (case y of Inl e \<Rightarrow> (Inl e, w2) | Inr out \<Rightarrow> (Inr (bs @ out), w2))"
      using Cons.IH [of bs w1] p by (simp split: sum.split)
    show ?thesis using t Inr a b by (cases y) simp_all
  qed
qed

lemma parse_matches_Cons:
  "parse_matches (m # ms) [] w =
     (case resolve_tag m w of
        (Inl e, w1) \<Rightarrow> (Inl e, w1)
      | (Inr bs, w1) \<Rightarrow>
          (case parse_matches ms [] w1 of
             (Inl e, w2) \<Rightarrow> (Inl e, w2)
           | (Inr out, w2) \<Rightarrow> (Inr (bs @ out), w2)))"
proof -
  obtain x w1 where t: "resolve_tag m w = (x, w1)" by (cases "resolve_tag m w")
  show ?thesis
  proof (cases x)
    case (Inl e)
    with t show ?thesis by simp
  next
    case (Inr bs)
    then show ?thesis using t parse_matches_acc [of ms bs w1] by simp
  qed
qed

lemma parse_matches_append:
  "parse_matches (ms1 @ ms2) [] w =
     (case parse_matches ms1 [] w of
        (Inl e, w1) \<Rightarrow> (Inl e, w1)
      | (Inr out1, w1) \<Rightarrow>
          (case parse_matches ms2 [] w1 of
             (Inl e, w2) \<Rightarrow> (Inl e, w2)
           | (Inr out2, w2) \<Rightarrow> (Inr (out1 @ out2), w2)))"
proof (induction ms1 arbitrary: w)
  case Nil
  show ?case by (simp split: prod.split sum.split)
next
  case (Cons m ms1)
  obtain x w1 where t: "resolve_tag m w = (x, w1)" by (cases "resolve_tag m w")
  show ?case
  proof (cases x)
    case (Inl e)
    with t show ?thesis by (simp add: parse_matches_Cons)
  next
    case (Inr bs)
    obtain y w2 where p: "parse_matches ms1 [] w1 = (y, w2)" by (cases "parse_matches ms1 [] w1")
    show ?thesis
    proof (cases y)
      case (Inl e)
      then show ?thesis using t Inr p Cons.IH [of w1]
        by (simp add: parse_matches_Cons del: parse_matches.simps)
    next
      case r: (Inr out1)
      obtain z w3 where q: "parse_matches ms2 [] w2 = (z, w3)" by (cases "parse_matches ms2 [] w2")
      show ?thesis using t Inr p r q Cons.IH [of w1]
        by (cases z) (simp_all add: parse_matches_Cons del: parse_matches.simps)
    qed
  qed
qed

lemma break_gt:
  "list_all not_gt body \<Longrightarrow>
   takeWhile not_gt (body @ CHR ''>'' # rest) = body \<and>
   dropWhile not_gt (body @ CHR ''>'' # rest) = CHR ''>'' # rest"
  by (induction body) (simp_all add: not_gt_def)

lemma FindAll_tag:
  assumes "tag_letter l" "list_all not_gt body"
  shows "FindAllStringSubmatch (CHR ''<'' # l # body @ CHR ''>'' # rest) =
           (l, dropWhile regex_space body) # FindAllStringSubmatch rest"
proof -
  have "FindAllStringSubmatch (CHR ''<'' # l # (body @ CHR ''>'' # rest)) =
          (l, dropWhile regex_space (takeWhile not_gt (body @ CHR ''>'' # rest)))
            # FindAllStringSubmatch (tl (dropWhile not_gt (body @ CHR ''>'' # rest)))"
    using assms(1) break_gt [OF assms(2), of rest]
    by (subst FindAllStringSubmatch.simps(3)) simp
  then show ?thesis using break_gt [OF assms(2), of rest] by simp
qed

lemma space_at_head_ascii: "regex_space c \<Longrightarrow> space_at_head (c # s) = 1"
proof -
  have "space_at_head (CHR 0x09 # s) = 1" "space_at_head (CHR 0x0A # s) = 1"
    "space_at_head (CHR 0x0C # s) = 1" "space_at_head (CHR 0x0D # s) = 1"
    "space_at_head (CHR 0x20 # s) = 1"
    by (simp_all add: space_at_head_def space_runes_def HasPrefix_def)
  then show "regex_space c \<Longrightarrow> space_at_head (c # s) = 1"
    unfolding regex_space_def by blast
qed

lemma TrimLeft_regex_space: "TrimLeft (dropWhile regex_space s) = TrimLeft s"
proof (induction s)
  case Nil
  show ?case by simp
next
  case (Cons c s)
  show ?case
  proof (cases "regex_space c")
    case True
    have "TrimLeft (c # s) = TrimLeft (drop (space_at_head (c # s)) (c # s))"
      using space_at_head_ascii [OF True, of s] by (subst TrimLeft.simps) simp
    then have "TrimLeft (c # s) = TrimLeft s"
      using space_at_head_ascii [OF True, of s] by simp
    with True Cons show ?thesis by simp
  next
    case False
    then show ?thesis by simp
  qed
qed

lemma TrimSpace_regex_space: "TrimSpace (dropWhile regex_space s) = TrimSpace s"
  by (simp add: TrimSpace_def TrimLeft_regex_space)

lemma b_tag_bytes_regex_space: "b_tag_bytes (dropWhile regex_space s) = b_tag_bytes s"
  by (simp add: b_tag_bytes_def TrimSpace_regex_space)

lemma r_tag_length_regex_space: "r_tag_length (dropWhile regex_space s) = r_tag_length s"
  by (simp add: r_tag_length_def TrimSpace_regex_space)

lemma r_tag_length_request:
  "r_tag_length d = map_option (\<lambda>n. min n 1000) (r_tag_request d)"
  by (auto simp: r_tag_length_def r_tag_request_def split: option.split)

lemma hex_DecodeString_None:
  "(hex_DecodeString h = None) = (odd (length h) \<or> list_ex (\<lambda>c. hex_digit c = None) h)"
  by (induction h rule: hex_DecodeString.induct) (auto split: option.splits)

lemma tag_at:
  "parse_matches (ms1 @ m # ms2) [] w =
     (case parse_matches ms1 [] w of
        (Inl e, w1) \<Rightarrow> (Inl e, w1)
      | (Inr out1, w1) \<Rightarrow>
          (case resolve_tag m w1 of
             (Inl e, w2) \<Rightarrow> (Inl e, w2)
           | (Inr bs, w2) \<Rightarrow>
               (case parse_matches ms2 [] w2 of
                  (Inl e, w3) \<Rightarrow> (Inl e, w3)
                | (Inr out2, w3) \<Rightarrow> (Inr (out1 @ bs @ out2), w3))))"
  unfolding parse_matches_append [of ms1 "m # ms2" w] parse_matches_Cons [of m ms2]
  by (simp split: prod.split sum.split)

lemma b_tag_at:
  assumes "FindAllStringSubmatch tpl = ms1 @ (CHR ''b'', d) # ms2"
  shows "parseCPSPacket tpl w =
     (case parse_matches ms1 [] w of
        (Inl e, w1) \<Rightarrow> (Inl e, w1)
      | (Inr out1, w1) \<Rightarrow>
          (case b_tag_bytes d of
             None \<Rightarrow> (Inl InvalidHex, w1)
           | Some bs \<Rightarrow>
               (case parse_matches ms2 [] w1 of
                  (Inl e, w2) \<Rightarrow> (Inl e, w2)
                | (Inr out2, w2) \<Rightarrow> (Inr (out1 @ bs @ out2), w2))))"
  unfolding parseCPSPacket_eq assms tag_at resolve_tag_b
  by (simp split: prod.split sum.split option.split)

lemma b_tag_head:
  assumes "list_all not_gt body"
  shows "parseCPSPacket (''<b'' @ body @ ''>'' @ rest) w =
     (case b_tag_bytes body of
        None \<Rightarrow> (Inl InvalidHex, w)
      | Some bs \<Rightarrow>
          (case parseCPSPacket rest w of
             (Inl e, w') \<Rightarrow> (Inl e, w')
           | (Inr out, w') \<Rightarrow> (Inr (bs @ out), w')))"
proof -
  have "FindAllStringSubmatch (''<b'' @ body @ ''>'' @ rest) =
          (CHR ''b'', dropWhile regex_space body) # FindAllStringSubmatch rest"
    using FindAll_tag [of "CHR ''b''" body rest] assms by (simp add: tag_letter_def)
  then show ?thesis
    unfolding parseCPSPacket_eq
    by (simp add: parse_matches_Cons resolve_tag_b b_tag_bytes_regex_space
        del: parse_matches.simps split: option.split)
qed

lemma b_zz: "parseCPSPacket ''<b zz>'' w = (Inl InvalidHex, w)"
proof -
  have n: "b_tag_bytes '' zz'' = None" by code_simp
  have g: "list_all not_gt '' zz''" by (simp add: not_gt_def)
  show ?thesis using b_tag_head [OF g, of "[]" w] n by simp
qed

lemma resolve_tag_r_request:
  "resolve_tag (CHR ''r'', d) w =
     (case r_tag_request d of
        None \<Rightarrow> (Inl InvalidLength, w)
      | Some N \<Rightarrow>
          if 0 < N then
            (case entropy w (reads w) of
               None \<Rightarrow> (Inl RandomFailure, w\<lparr>reads := Suc (reads w)\<rparr>)
             | Some f \<Rightarrow> (Inr (map f [0..<nat (min N 1000)]), w\<lparr>reads := Suc (reads w)\<rparr>))
          else (Inr [], w))"
  by (simp add: resolve_tag_r r_tag_length_request split: option.split)

lemma r_tag_at:
  assumes "FindAllStringSubmatch tpl = ms1 @ (CHR ''r'', d) # ms2"
  shows "parseCPSPacket tpl w =
     (case parse_matches ms1 [] w of
        (Inl e, w1) \<Rightarrow> (Inl e, w1)
      | (Inr out1, w1) \<Rightarrow>
          (case r_tag_request d of
             None \<Rightarrow> (Inl InvalidLength, w1)
           | Some N \<Rightarrow>
               if 0 < N then
                 (case entropy w1 (reads w1) of
                    None \<Rightarrow> (Inl RandomFailure, w1\<lparr>reads := Suc (reads w1)\<rparr>)
                  | Some f \<Rightarrow>
                      (case parse_matches ms2 [] (w1\<lparr>reads := Suc (reads w1)\<rparr>) of
                         (Inl e, w2) \<Rightarrow> (Inl e, w2)
                       | (Inr out2, w2) \<Rightarrow>
                           (Inr (out1 @ map f [0..<nat (max 0 (min N 1000))] @ out2), w2)))
               else
                 (case parse_matches ms2 [] w1 of
                    (Inl e, w2) \<Rightarrow> (Inl e, w2)
                  | (Inr out2, w2) \<Rightarrow> (Inr (out1 @ out2), w2))))"
proof -
  obtain x w1 where p: "parse_matches ms1 [] w = (x, w1)" by (cases "parse_matches ms1 [] w")
  have e: "parseCPSPacket tpl w = parse_matches (ms1 @ (CHR ''r'', d) # ms2) [] w"
    by (simp add: parseCPSPacket_eq assms)
  show ?thesis
  proof (cases x)
    case (Inl err)
    then show ?thesis by (simp add: e tag_at p)
  next
    case (Inr out1)
    show ?thesis
    proof (cases "r_tag_request d")
      case None
      then show ?thesis by (simp add: e tag_at p Inr resolve_tag_r_request)
    next
      case (Some N)
      show ?thesis
      proof (cases "0 < N")
        case False
        obtain y w2 where q: "parse_matches ms2 [] w1 = (y, w2)"
          by (cases "parse_matches ms2 [] w1")
        show ?thesis using False
          by (cases y) (simp_all add: e tag_at p Inr Some q resolve_tag_r_request)
      next
        case True
        show ?thesis
        proof (cases "entropy w1 (reads w1)")
          case None
          then show ?thesis using True by (simp add: e tag_at p Inr Some resolve_tag_r_request)
        next
          case f: (Some f)
          obtain y w2 where q: "parse_matches ms2 [] (w1\<lparr>reads := Suc (reads w1)\<rparr>) = (y, w2)"
            by (cases "parse_matches ms2 [] (w1\<lparr>reads := Suc (reads w1)\<rparr>)")
          show ?thesis using True
            by (cases y) (simp_all add: e tag_at p Inr Some f q resolve_tag_r_request)
        qed
      qed
    qed
  qed
qed

lemma r_tag_request_regex_space: "r_tag_request (dropWhile regex_space s) = r_tag_request s"
  by (simp add: r_tag_request_def TrimSpace_regex_space)

lemma r_5000:
  "parseCPSPacket ''<r 5000>'' w =
     (case entropy w (reads w) of
        None \<Rightarrow> (Inl RandomFailure, w\<lparr>reads := Suc (reads w)\<rparr>)
      | Some f \<Rightarrow> (Inr (map f [0..<1000]), w\<lparr>reads := Suc (reads w)\<rparr>))"
proof -
  have n: "r_tag_request '' 5000'' = Some 5000" by code_simp
  have "FindAllStringSubmatch ''<r 5000>'' = [] @ (CHR ''r'', ''5000'') # []" by code_simp
  from r_tag_at [OF this, of w] show ?thesis
    using n r_tag_request_regex_space [of "'' 5000''"] by (simp add: regex_space_def split: option.split)
qed

lemma bad_tag_fails: "bad_tag m \<Longrightarrow> isl (fst (resolve_tag m w))"
  by (cases m) (auto simp: bad_tag_def resolve_tag_b resolve_tag_r_request)

lemma good_tag_resolves:
  assumes "\<not> bad_tag m" "entropy w (reads w) \<noteq> None"
  shows "\<not> isl (fst (resolve_tag m w))"
proof -
  obtain l d where m: "m = (l, d)" by (cases m)
  consider "l = CHR ''b''" | "l = CHR ''c''" | "l = CHR ''t''" | "l = CHR ''r''"
    | "l \<noteq> CHR ''b''" "l \<noteq> CHR ''c''" "l \<noteq> CHR ''t''" "l \<noteq> CHR ''r''" by blast
  then show ?thesis
  proof cases
    case 1
    then show ?thesis using assms by (auto simp: m bad_tag_def resolve_tag_b)
  next
    case 2
    then show ?thesis by (simp add: m resolve_tag_c)
  next
    case 3
    then show ?thesis by (simp add: m resolve_tag_t)
  next
    case 4
    then show ?thesis using assms
      by (auto simp: m bad_tag_def resolve_tag_r_request split: if_splits)
  next
    case 5
    then show ?thesis by (simp add: m resolve_tag_other)
  qed
qed

lemma malformed_fails: "list_ex bad_tag ms \<Longrightarrow> isl (fst (parse_matches ms [] w))"
proof (induction ms arbitrary: w)
  case Nil
  then show ?case by simp
next
  case (Cons m ms)
  obtain x w1 where t: "resolve_tag m w = (x, w1)" by (cases "resolve_tag m w")
  show ?case
  proof (cases x)
    case (Inl e)
    with t show ?thesis by (simp add: parse_matches_Cons)
  next
    case (Inr bs)
    then have "\<not> bad_tag m" using bad_tag_fails [of m w] t by auto
    then have i: "isl (fst (parse_matches ms [] w1))" using Cons by simp
    obtain y w2 where q: "parse_matches ms [] w1 = (y, w2)" by (cases "parse_matches ms [] w1")
    show ?thesis using t Inr i q
      by (cases y) (simp_all add: parse_matches_Cons del: parse_matches.simps)
  qed
qed

lemma wellformed_resolves:
  "\<not> list_ex bad_tag ms \<Longrightarrow> \<forall>n. entropy w n \<noteq> None \<Longrightarrow> \<not> isl (fst (parse_matches ms [] w))"
proof (induction ms arbitrary: w)
  case Nil
  then show ?case by simp
next
  case (Cons m ms)
  obtain x w1 where t: "resolve_tag m w = (x, w1)" by (cases "resolve_tag m w")
  have "\<not> isl (fst (resolve_tag m w))" using good_tag_resolves [of m w] Cons.prems by simp
  then obtain bs where x: "x = Inr bs" using t by (cases x) auto
  have "entropy w1 = entropy w" using same_net_resolve_tag [of w m] t by (simp add: same_net_def)
  then have i: "\<not> isl (fst (parse_matches ms [] w1))" using Cons by simp
  obtain y w2 where q: "parse_matches ms [] w1 = (y, w2)" by (cases "parse_matches ms [] w1")
  show ?case using t x i q
    by (cases y) (simp_all add: parse_matches_Cons del: parse_matches.simps)
qed

lemma NewWithAmnezia_eq:
  "NewWithAmnezia (Some cfg) port ival w =
     (case parseCPSPacket (I1 cfg) w of
        (Inl err, w1) \<Rightarrow> (Inl (InvalidI1 err), w1)
      | (Inr p, w1) \<Rightarrow>
          (Inr \<lparr>port443 = port, payload = p, amneziaConfig = Some cfg,
                lastSent = Map.empty, interval = ival\<rparr>, w1))"
  by (simp add: NewWithAmnezia_def parseCPSPacket_def)

subsection \<open>Static bytes\<close>

text \<open>
  C8, as the claim states it, fails: a tab between the hex digits is white space, and
  without it the text \<open>c0ff\<close> is valid hex, but the tag is a parse error.
\<close>

theorem C8_counterexample:
  "fst (parseCPSPacket template_tab world0) = Inl InvalidHex
   \<and> hex_DecodeString ''c0ff'' = Some [0xC0, 0xFF]"
  by code_simp

text \<open>
  C8, amended: for every \<open><b HEX>\<close> tag that the regular expression finds in a template,
  at any place, the white space around HEX is trimmed, then an optional 0x/0X prefix is
  removed, then every space character (byte 0x20, and no other white space) is removed. When
  the tags before it have resolved, the tag is the parse error \<open>InvalidHex\<close> if what is left
  is not valid hex (an odd length or a character that is no hex digit), and otherwise it
  contributes exactly the decoded bytes, nothing for an empty HEX. In every world,
  \<open>resolve("<b zz>")\<close> is that parse error.
\<close>

theorem C8_b_tag:
  "(FindAllStringSubmatch tpl = ms1 @ (CHR ''b'', d) # ms2 \<longrightarrow>
      parseCPSPacket tpl w =
        (case parse_matches ms1 [] w of
           (Inl e, w1) \<Rightarrow> (Inl e, w1)
         | (Inr out1, w1) \<Rightarrow>
             (case b_tag_bytes d of
                None \<Rightarrow> (Inl InvalidHex, w1)
              | Some bs \<Rightarrow>
                  (case parse_matches ms2 [] w1 of
                     (Inl e, w2) \<Rightarrow> (Inl e, w2)
                   | (Inr out2, w2) \<Rightarrow> (Inr (out1 @ bs @ out2), w2)))))
   \<and> (list_all not_gt body \<longrightarrow>
        parseCPSPacket (''<b'' @ body @ ''>'' @ rest) w =
          (case b_tag_bytes body of
             None \<Rightarrow> (Inl InvalidHex, w)
           | Some bs \<Rightarrow>
               (case parseCPSPacket rest w of
                  (Inl e, w') \<Rightarrow> (Inl e, w')
                | (Inr out, w') \<Rightarrow> (Inr (bs @ out), w'))))
   \<and> b_tag_bytes d =
        (if TrimSpace d = [] then Some []
         else hex_DecodeString (filter (\<lambda>c. c \<noteq> CHR '' '') (strip_0x (TrimSpace d))))
   \<and> strip_0x h = (if take 2 h = ''0x'' \<or> take 2 h = ''0X'' then drop 2 h else h)
   \<and> (hex_DecodeString h = None) = (odd (length h) \<or> list_ex (\<lambda>c. hex_digit c = None) h)
   \<and> parseCPSPacket ''<b zz>'' w = (Inl InvalidHex, w)"
proof (intro conjI impI)
  show "strip_0x h = (if take 2 h = ''0x'' \<or> take 2 h = ''0X'' then drop 2 h else h)"
    by (simp add: strip_0x_def HasPrefix_def numeral_2_eq_2)
  show "b_tag_bytes d =
        (if TrimSpace d = [] then Some []
         else hex_DecodeString (filter (\<lambda>c. c \<noteq> CHR '' '') (strip_0x (TrimSpace d))))"
    by (simp add: b_tag_bytes_def ReplaceAll_space_def)
qed (rule b_tag_at b_tag_head hex_DecodeString_None b_zz; assumption)+

theorem C8_b_tag_witness:
  "FindAllStringSubmatch template3 = [(CHR ''c'', [])] @ (CHR ''b'', ''0x C0 fF '') # [(CHR ''r'', ''2'')]
   \<and> b_tag_bytes ''0x C0 fF '' = Some [0xC0, 0xFF]
   \<and> fst (parseCPSPacket template3 world0) = Inr [101, 83, 241, 0, 0xC0, 0xFF, 0, 1]
   \<and> parseCPSPacket template3 world0 =
        (case parse_matches [(CHR ''c'', [])] [] world0 of
           (Inl e, w1) \<Rightarrow> (Inl e, w1)
         | (Inr out1, w1) \<Rightarrow>
             (case b_tag_bytes ''0x C0 fF '' of
                None \<Rightarrow> (Inl InvalidHex, w1)
              | Some bs \<Rightarrow>
                  (case parse_matches [(CHR ''r'', ''2'')] [] w1 of
                     (Inl e, w2) \<Rightarrow> (Inl e, w2)
                   | (Inr out2, w2) \<Rightarrow> (Inr (out1 @ bs @ out2), w2))))"
proof -
  have h: "FindAllStringSubmatch template3
             = [(CHR ''c'', [])] @ (CHR ''b'', ''0x C0 fF '') # [(CHR ''r'', ''2'')]"
    by code_simp
  have b: "b_tag_bytes ''0x C0 fF '' = Some [0xC0, 0xFF]" by code_simp
  have v: "fst (parseCPSPacket template3 world0) = Inr [101, 83, 241, 0, 0xC0, 0xFF, 0, 1]"
    by code_simp
  from C8_b_tag [of template3 "[(CHR ''c'', [])]" "''0x C0 fF ''" "[(CHR ''r'', ''2'')]" world0]
    h b v show ?thesis by blast
qed

subsection \<open>Random bytes\<close>

text \<open>
  C7, as the claim states it, fails: when \<open>crypto/rand\<close> fails, \<open>resolve("<r 5000>")\<close> is an
  error, not 1000 bytes; and a length beyond the range of \<open>int\<close> is a parse error, not 1000
  bytes.
\<close>

theorem C7_counterexample:
  "fst (parseCPSPacket ''<r 5000>'' world_dry) = Inl RandomFailure
   \<and> fst (parseCPSPacket ''<r 9223372036854775808>'' world0) = Inl InvalidLength"
  by code_simp

text \<open>
  C7, amended: for every \<open><r N>\<close> tag that the regular expression finds in a template, at any
  place, once the tags before it have resolved: if N is not a decimal integer in the range
  of \<open>int\<close> (an optional sign and digits) the tag is the parse error \<open>InvalidLength\<close>; if
  N > 0 and \<open>crypto/rand\<close> fails it is the error \<open>RandomFailure\<close> (no fallback); otherwise it
  contributes exactly clamp(N, 0, 1000) bytes, all read from \<open>crypto/rand\<close> in one call, and
  a tag without N contributes none. So \<open>resolve("<r 5000>")\<close> is exactly 1000 bytes whenever
  \<open>crypto/rand\<close> delivers, and an error when it fails.
\<close>

theorem C7_r_tag:
  "(FindAllStringSubmatch tpl = ms1 @ (CHR ''r'', d) # ms2 \<longrightarrow>
      parseCPSPacket tpl w =
        (case parse_matches ms1 [] w of
           (Inl e, w1) \<Rightarrow> (Inl e, w1)
         | (Inr out1, w1) \<Rightarrow>
             (case r_tag_request d of
                None \<Rightarrow> (Inl InvalidLength, w1)
              | Some N \<Rightarrow>
                  if 0 < N then
                    (case entropy w1 (reads w1) of
                       None \<Rightarrow> (Inl RandomFailure, w1\<lparr>reads := Suc (reads w1)\<rparr>)
                     | Some f \<Rightarrow>
                         (case parse_matches ms2 [] (w1\<lparr>reads := Suc (reads w1)\<rparr>) of
                            (Inl e, w2) \<Rightarrow> (Inl e, w2)
                          | (Inr out2, w2) \<Rightarrow>
                              (Inr (out1 @ map f [0..<nat (max 0 (min N 1000))] @ out2), w2)))
                  else
                    (case parse_matches ms2 [] w1 of
                       (Inl e, w2) \<Rightarrow> (Inl e, w2)
                     | (Inr out2, w2) \<Rightarrow> (Inr (out1 @ out2), w2)))))
   \<and> r_tag_request d = (if TrimSpace d = [] then Some 0 else Atoi (TrimSpace d))
   \<and> parseCPSPacket ''<r 5000>'' w =
        (case entropy w (reads w) of
           None \<Rightarrow> (Inl RandomFailure, w\<lparr>reads := Suc (reads w)\<rparr>)
         | Some f \<Rightarrow> (Inr (map f [0..<1000]), w\<lparr>reads := Suc (reads w)\<rparr>))
   \<and> parseCPSPacket ''<r>'' w = (Inr [], w)"
proof (intro conjI impI)
  show "r_tag_request d = (if TrimSpace d = [] then Some 0 else Atoi (TrimSpace d))"
    by (simp add: r_tag_request_def)
  have f: "FindAllStringSubmatch ''<r>'' = [] @ (CHR ''r'', []) # []" by code_simp
  have n: "r_tag_request [] = Some 0" by code_simp
  show "parseCPSPacket ''<r>'' w = (Inr [], w)"
    using r_tag_at [OF f, of w] n by simp
qed (rule r_tag_at r_5000; assumption)+

theorem C7_r_tag_witness:
  "FindAllStringSubmatch template3 = [(CHR ''c'', []), (CHR ''b'', ''0x C0 fF '')] @ (CHR ''r'', ''2'') # []
   \<and> r_tag_request ''2'' = Some 2
   \<and> r_tag_request ''-7'' = Some (- 7)
   \<and> r_tag_request ''12x'' = None
   \<and> fst (parseCPSPacket template3 world0) = Inr [101, 83, 241, 0, 0xC0, 0xFF, 0, 1]
   \<and> length (projr (fst (parseCPSPacket ''<r 5000>'' world0))) = 1000
   \<and> parseCPSPacket ''<r 5000>'' world0 =
        (case entropy world0 (reads world0) of
           None \<Rightarrow> (Inl RandomFailure, world0\<lparr>reads := Suc (reads world0)\<rparr>)
         | Some f \<Rightarrow> (Inr (map f [0..<1000]), world0\<lparr>reads := Suc (reads world0)\<rparr>))"
proof -
  have h: "FindAllStringSubmatch template3
             = [(CHR ''c'', []), (CHR ''b'', ''0x C0 fF '')] @ (CHR ''r'', ''2'') # []"
    by code_simp
  have r: "r_tag_request ''2'' = Some 2" "r_tag_request ''-7'' = Some (- 7)"
    "r_tag_request ''12x'' = None"
    by code_simp+
  have v: "fst (parseCPSPacket template3 world0) = Inr [101, 83, 241, 0, 0xC0, 0xFF, 0, 1]"
    by code_simp
  have e: "entropy world0 (reads world0) = Some (\<lambda>i. of_nat (0 + i))"
    by (simp add: world0_def)
  have t: "parseCPSPacket ''<r 5000>'' world0 =
        (case entropy world0 (reads world0) of
           None \<Rightarrow> (Inl RandomFailure, world0\<lparr>reads := Suc (reads world0)\<rparr>)
         | Some f \<Rightarrow> (Inr (map f [0..<1000]), world0\<lparr>reads := Suc (reads world0)\<rparr>))"
    using C7_r_tag [of "[]" "[]" "[]" "[]" world0] by blast
  have l: "length (projr (fst (parseCPSPacket ''<r 5000>'' world0))) = 1000"
    unfolding t e by simp
  from h r v l t show ?thesis by blast
qed

subsection \<open>Construction\<close>

text \<open>
  C3, as the claim states it, fails in both directions: a malformed I2 does not make the
  construction fail, and with five well-formed templates the construction fails when
  \<open>crypto/rand\<close> fails while I1 is resolved.
\<close>

theorem C3_counterexample:
  "malformed (I2 config_badI2)
   \<and> \<not> isl (fst (NewWithAmnezia (Some config_badI2) 443 Second world0))
   \<and> \<not> malformed (I1 config_r4) \<and> \<not> malformed (I2 config_r4) \<and> \<not> malformed (I3 config_r4)
   \<and> \<not> malformed (I4 config_r4) \<and> \<not> malformed (I5 config_r4)
   \<and> isl (fst (NewWithAmnezia (Some config_r4) 443 Second world_dry))"
  by code_simp

text \<open>
  C3, amended: the construction resolves I1, and only I1. If I1 is malformed (bad hex in a
  \<open><b>\<close> tag, or an \<open><r>\<close> length that \<open>Atoi\<close> rejects) the construction fails with an
  error; if I1 is well-formed, or empty, and \<open>crypto/rand\<close> delivers, it succeeds, whatever
  I2 to I5 are; without a configuration it succeeds. In each case nothing has been sent
  and nothing handed to the wrapped bind when it returns.
\<close>

theorem C3_construction:
  "(malformed (I1 cfg) \<longrightarrow> isl (fst (NewWithAmnezia (Some cfg) port ival w)))
   \<and> (\<not> malformed (I1 cfg) \<and> (\<forall>n. entropy w n \<noteq> None)
        \<longrightarrow> \<not> isl (fst (NewWithAmnezia (Some cfg) port ival w)))
   \<and> \<not> isl (fst (NewWithAmnezia None port ival w))
   \<and> wire (snd (NewWithAmnezia c port ival w)) = wire w
   \<and> forwarded (snd (NewWithAmnezia c port ival w)) = forwarded w"
proof -
  obtain x w1 where p: "parseCPSPacket (I1 cfg) w = (x, w1)" by (cases "parseCPSPacket (I1 cfg) w")
  have i: "isl (fst (NewWithAmnezia (Some cfg) port ival w)) = isl x"
    using p by (cases x) (simp_all add: NewWithAmnezia_eq)
  have a: "malformed (I1 cfg) \<longrightarrow> isl x"
    using malformed_fails [of "FindAllStringSubmatch (I1 cfg)" w] p
    by (simp add: malformed_def parseCPSPacket_eq)
  have b: "\<not> malformed (I1 cfg) \<and> (\<forall>n. entropy w n \<noteq> None) \<longrightarrow> \<not> isl x"
    using wellformed_resolves [of "FindAllStringSubmatch (I1 cfg)" w] p
    by (auto simp: malformed_def parseCPSPacket_eq)
  have n: "\<not> isl (fst (NewWithAmnezia None port ival w))"
    by (simp add: NewWithAmnezia_def)
  have s: "same_net w (snd (NewWithAmnezia c port ival w))"
  proof (cases c)
    case None
    then show ?thesis by (simp add: NewWithAmnezia_def same_net_refl)
  next
    case (Some cf)
    obtain y w2 where q: "parseCPSPacket (I1 cf) w = (y, w2)" by (cases "parseCPSPacket (I1 cf) w")
    from same_net_parseCPSPacket [OF q] show ?thesis
      using Some q by (cases y) (simp_all add: NewWithAmnezia_eq)
  qed
  from i a b n s show ?thesis by (simp add: same_net_def)
qed

theorem C3_construction_witness:
  "malformed (I1 (config0\<lparr>I1 := ''<b zz>''\<rparr>))
   \<and> isl (fst (NewWithAmnezia (Some (config0\<lparr>I1 := ''<b zz>''\<rparr>)) 443 Second world0))
   \<and> \<not> malformed (I1 config_badI2)
   \<and> \<not> isl (fst (NewWithAmnezia (Some config_badI2) 443 Second world0))
   \<and> wire (snd (NewWithAmnezia (Some config_badI2) 443 Second world0)) = wire world0"
proof -
  have a: "malformed (I1 (config0\<lparr>I1 := ''<b zz>''\<rparr>))" by code_simp
  have b: "\<not> malformed (I1 config_badI2)" by code_simp
  have e: "\<forall>n. entropy world0 n \<noteq> None" by (simp add: world0_def)
  from C3_construction [of "config0\<lparr>I1 := ''<b zz>''\<rparr>" 443 Second world0] a
  have 1: "isl (fst (NewWithAmnezia (Some (config0\<lparr>I1 := ''<b zz>''\<rparr>)) 443 Second world0))"
    by blast
  from C3_construction [of config_badI2 443 Second world0 "Some config_badI2"] b e
  have 2: "\<not> isl (fst (NewWithAmnezia (Some config_badI2) 443 Second world0))"
    and 3: "wire (snd (NewWithAmnezia (Some config_badI2) 443 Second world0)) = wire world0"
    by blast+
  from a b 1 2 3 show ?thesis by blast
qed

subsection \<open>I1 is resolved at construction\<close>

text \<open>
  C1 at a failing input: I1 and I2 are both the template \<open><t>\<close>. The engine is built when the
  clock reads 1700000000 s (bytes 101, 83, 241, 0). At the trigger, two clock readings
  later, the bytes written for I2 are the timestamp of that moment, those written for I1 are
  the payload stored at construction; resolving I1 at the trigger gives other bytes.
\<close>

theorem C1_I1_cached:
  "\<not> isl (fst (NewWithAmnezia (Some config_t) 443 Second world0))
   \<and> payload bind_t = [101, 83, 241, 0]
   \<and> sent_after (Send bind_t [initiation0] endpoint0 world_t)
       = Some [(WriteI1, [101, 83, 241, 0]), (WriteSig, [101, 83, 241, 2])]
   \<and> fst (parseCPSPacket (I1 config_t) world_t) = Inr [101, 83, 241, 1]"
  by code_simp

end
